theory Spec2Isabelle
  imports Complex_Main
begin

section \<open>Strings as the services use them\<close>

text \<open>
  A JavaScript string is modelled as a list of characters with codes 0 to 255. The
  white space of \<^verbatim>\<open>\s\<close> and of \<^verbatim>\<open>trim()\<close> in that range is tab, line feed,
  vertical tab, form feed, carriage return, space and the no-break space.
\<close>

definition is_ws :: "char \<Rightarrow> bool" where
  "is_ws c = (of_char c \<in> {9::nat, 10, 11, 12, 13, 32, 160})"

text \<open>\<^verbatim>\<open>s.trim()\<close>: white space removed at both ends.\<close>

definition trim :: "string \<Rightarrow> string" where
  "trim s = rev (dropWhile is_ws (rev (dropWhile is_ws s)))"

text \<open>
  \<^verbatim>\<open>text.split(/\s+/)\<close>. The pattern matches a maximal run of white space; the pieces
  between the matches are returned, so a text that begins (or ends) with white space
  gives an empty first (or last) piece, and the empty text gives one empty piece.
  \<open>splitFrom cur rest\<close> has read the piece \<open>cur\<close> so far.
\<close>

function splitFrom :: "string \<Rightarrow> string \<Rightarrow> string list" where
  "splitFrom cur [] = [cur]"
| "splitFrom cur (c # cs) =
     (if is_ws c then cur # splitFrom [] (dropWhile is_ws cs)
      else splitFrom (cur @ [c]) cs)"
  by pat_completeness auto
termination
  by (relation "measure (\<lambda>(cur, rest). length rest)")
     (auto simp: less_Suc_eq_le length_dropWhile_le)

definition splitWs :: "string \<Rightarrow> string list" where
  "splitWs text = splitFrom [] text"

text \<open>\<^verbatim>\<open>parts.join(' ')\<close>.\<close>

fun joinSp :: "string list \<Rightarrow> string" where
  "joinSp [] = []"
| "joinSp [x] = x"
| "joinSp (x # y # ys) = x @ CHR '' '' # joinSp (y # ys)"

section \<open>Chunking a transcript (ai.service.ts, splitIntoChunks)\<close>

text \<open>
  The loop \<^verbatim>\<open>for (i = 0; i < words.length; i += wordsPerChunk)\<close> with the list of
  chunks pushed so far. With \<open>wordsPerChunk = 0\<close> the index never advances and the
  loop does not return: that is the value \<open>None\<close>.
\<close>

function chunkLoop :: "string list \<Rightarrow> nat \<Rightarrow> nat \<Rightarrow> string list \<Rightarrow> string list option" where
  "chunkLoop words wordsPerChunk i chunks =
     (if i < length words then
        (if wordsPerChunk = 0 then None
         else
           let chunk = joinSp (take wordsPerChunk (drop i words))
           in chunkLoop words wordsPerChunk (i + wordsPerChunk)
                (if length (trim chunk) > 0 then chunks @ [chunk] else chunks))
      else Some chunks)"
  by pat_completeness auto
termination
  by (relation "measure (\<lambda>(words, w, i, chunks). length words - i)") auto

declare chunkLoop.simps [simp del]

definition splitIntoChunks :: "string \<Rightarrow> nat \<Rightarrow> string list option" where
  "splitIntoChunks text wordsPerChunk = chunkLoop (splitWs text) wordsPerChunk 0 []"

text \<open>The words of a text: the non-empty pieces of the split.\<close>

definition wordsOf :: "string \<Rightarrow> string list" where
  "wordsOf text = filter (\<lambda>w. w \<noteq> []) (splitWs text)"


section \<open>Cosine similarity and snippets (qa.service in topics.service.ts, ai.service.ts)\<close>

text \<open>
  A JavaScript number is modelled as a real number: rounding, overflow and the value NaN of
  the floating-point type are outside this model. The three sums of the loop are carried
  as a triple.
\<close>

definition cosineSums :: "real list \<Rightarrow> real list \<Rightarrow> real \<times> real \<times> real" where
  "cosineSums a b =
     foldl (\<lambda>(dotProduct, normA, normB) i.
              (dotProduct + a ! i * b ! i, normA + a ! i * a ! i, normB + b ! i * b ! i))
       (0, 0, 0) [0..<length a]"


text \<open>The version of the Q and A service, which also returns 0 for empty vectors.\<close>

definition cosineSimilarity :: "real list \<Rightarrow> real list \<Rightarrow> real" where
  "cosineSimilarity a b =
     (if length a \<noteq> length b \<or> length a = 0 then 0
      else
        (case cosineSums a b of (dotProduct, normA, normB) \<Rightarrow>
           let denominator = sqrt normA * sqrt normB
           in if denominator = 0 then 0 else dotProduct / denominator))"

text \<open>The version of ai.service.ts, without the test for the empty vector.\<close>

definition cosineSimilarity_ai :: "real list \<Rightarrow> real list \<Rightarrow> real" where
  "cosineSimilarity_ai a b =
     (if length a \<noteq> length b then 0
      else
        (case cosineSums a b of (dotProduct, normA, normB) \<Rightarrow>
           let denominator = sqrt normA * sqrt normB
           in if denominator = 0 then 0 else dotProduct / denominator))"

definition truncateSnippet :: "string \<Rightarrow> nat \<Rightarrow> string" where
  "truncateSnippet text maxLength =
     (if length text \<le> maxLength then text else trim (take maxLength text) @ ''...'')"

text \<open>
  \<^verbatim>\<open>s.toLowerCase()\<close> on the characters with codes 0 to 255: the capital letters
  (codes 65 to 90, and 192 to 222 but for the multiplication sign) move up by 32, which
  for these codes sets the bit of value 32.
\<close>

definition lowerChar :: "char \<Rightarrow> char" where
  "lowerChar c =
     (let n = (of_char c :: nat)
      in if (65 \<le> n \<and> n \<le> 90) \<or> (192 \<le> n \<and> n \<le> 222 \<and> n \<noteq> 215)
         then (case c of Char b0 b1 b2 b3 b4 b5 b6 b7 \<Rightarrow> Char b0 b1 b2 b3 b4 True b6 b7)
         else c)"

definition toLowerCase :: "string \<Rightarrow> string" where
  "toLowerCase s = map lowerChar s"

text \<open>
  \<^verbatim>\<open>xs.slice(0, n)\<close> for an integer \<open>n\<close>: a negative end counts from the end of the
  array.
\<close>

definition sliceTo :: "'a list \<Rightarrow> int \<Rightarrow> 'a list" where
  "sliceTo xs n = (if n < 0 then take (nat (int (length xs) + n)) xs else take (nat n) xs)"

text \<open>
  A string in a condition (\<^verbatim>\<open>if (s)\<close>, \<^verbatim>\<open>s || d\<close>) counts as true when it is present
  and not empty.
\<close>

definition truthy :: "string option \<Rightarrow> bool" where
  "truthy s = (case s of None \<Rightarrow> False | Some t \<Rightarrow> t \<noteq> [])"

definition orNull :: "string option \<Rightarrow> string option" where
  "orNull s = (if truthy s then s else None)"

section \<open>The store and the providers\<close>

datatype ProcessingStatus = Processing | Ready | Failed

datatype Priority = High | Medium | Low

datatype ItemStatus = Pending | InProgress | Completed

record Meeting =
  m_id :: string
  m_status :: ProcessingStatus
  m_transcript :: "string option"
  m_summary :: "string option"
  m_video_url :: "string option"

record ActionItem =
  ai_id :: nat
  ai_meeting_id :: string
  ai_description :: string
  ai_priority :: Priority
  ai_due_date :: "string option"
  ai_status :: ItemStatus

record Decision =
  d_id :: nat
  d_meeting_id :: string
  d_decision_text :: string
  d_context :: "string option"
  d_tags :: "string list option"

record Topic =
  t_id :: nat
  t_name :: string
  t_meeting_count :: "int option"
  t_last_discussed :: "string option"

record MeetingTopic =
  mt_meeting_id :: string
  mt_topic_id :: nat

record MeetingEmbedding =
  e_id :: nat
  e_meeting_id :: string
  e_embedding :: "real list"
  e_content_chunk :: string
  e_chunk_index :: nat

text \<open>
  The world the services act on: the six tables of schema.sql that the pipeline reads and
  writes (with the columns it uses), the generator of row identifiers (a UUID is
  modelled as a number never handed out before), and what has been asked of the
  outside so far: the number of store requests, of calls to the generation model and to
  the embedding model, and the delays awaited (in milliseconds, oldest first).
\<close>

record World =
  meetings :: "Meeting list"
  action_items :: "ActionItem list"
  decisions :: "Decision list"
  topics :: "Topic list"
  meeting_topics :: "MeetingTopic list"
  meeting_embeddings :: "MeetingEmbedding list"
  next_id :: nat
  requests :: nat
  gen_calls :: nat
  embed_calls :: nat
  sleeps :: "nat list"

datatype TranscriptStatus = TQueued | TProcessing | TCompleted | TError

record AssemblyAITranscriptResponse =
  r_id :: string
  r_status :: TranscriptStatus
  r_text :: "string option"
  r_error :: "string option"

datatype SubmitResult =
    SubmitThrows string
  | SubmitNotOk "string option" string
  | SubmitOk AssemblyAITranscriptResponse

datatype PollResult =
    PollThrows string
  | PollNotOk string
  | PollOk AssemblyAITranscriptResponse

record ExtractedActionItem =
  x_description :: string
  x_due_date :: "string option"
  x_priority :: "Priority option"

record ExtractedDecision =
  x_decision_text :: string
  x_context :: "string option"
  x_tags :: "string list option"

record GeminiInsightsResponse =
  g_actionItems :: "ExtractedActionItem list option"
  g_decisions :: "ExtractedDecision list option"
  g_topics :: "string list option"

text \<open>
  A prompt is a fixed text around its arguments, so a request to the generation model is
  given by the kind of prompt and the arguments: the transcript, or the contents of the
  chunks (in the order of their labels \<^verbatim>\<open>[Source n]\<close>) and the question.
\<close>

datatype Prompt =
    InsightsPrompt string
  | SummaryPrompt string
  | TopicsPrompt string
  | AnswerPrompt "string list" string

text \<open>
  Everything the services do not decide: the two API keys of the configuration; the
  answers of the transcription provider to a submission and to the n-th poll of a job; the
  answers of the generation and the embedding model (\<open>Inl\<close> is the message of the
  error thrown); \<^verbatim>\<open>JSON.parse\<close> of a model answer after the code fences are removed
  (\<open>None\<close> when it throws); for the n-th request sent to the store, the message of
  its error if it fails (a violated constraint other than the key of meeting_topics is
  such an error); and the time read at that moment.
\<close>

record Env =
  assemblyaiKey :: "string option"
  geminiKey :: "string option"
  submitTranscript :: "string \<Rightarrow> SubmitResult"
  pollTranscript :: "string \<Rightarrow> nat \<Rightarrow> PollResult"
  generateContent :: "Prompt \<Rightarrow> string + string"
  embedContent :: "string \<Rightarrow> string + real list"
  parseInsights :: "string \<Rightarrow> GeminiInsightsResponse option"
  parseStrings :: "string \<Rightarrow> string list option"
  storeFails :: "nat \<Rightarrow> string option"
  now :: "nat \<Rightarrow> string"

definition getAssemblyAIKey :: "Env \<Rightarrow> string + string" where
  "getAssemblyAIKey env =
     (case assemblyaiKey env of
        Some key \<Rightarrow>
          if key \<noteq> [] then Inr key
          else Inl ''VITE_ASSEMBLYAI_API_KEY environment variable is not set''
      | None \<Rightarrow> Inl ''VITE_ASSEMBLYAI_API_KEY environment variable is not set'')"

definition getGeminiKey :: "Env \<Rightarrow> string + string" where
  "getGeminiKey env =
     (case geminiKey env of
        Some key \<Rightarrow>
          if key \<noteq> [] then Inr key
          else Inl ''VITE_GEMINI_API_KEY environment variable is not set''
      | None \<Rightarrow> Inl ''VITE_GEMINI_API_KEY environment variable is not set'')"

text \<open>
  The store is reached through the Supabase client. A request either fails, with a
  message and no effect, or has the effect of the statement it stands for on the tables.
  One request to the store: its error, if any, and the request counted.
\<close>

definition request :: "Env \<Rightarrow> World \<Rightarrow> string option \<times> World" where
  "request env w = (storeFails env (requests w), w\<lparr>requests := Suc (requests w)\<rparr>)"

text \<open>\<^verbatim>\<open>from('meetings').update(...).eq('id', meetingId)\<close>.\<close>

definition updateMeetings ::
  "Env \<Rightarrow> string \<Rightarrow> (Meeting \<Rightarrow> Meeting) \<Rightarrow> World \<Rightarrow> string option \<times> World" where
  "updateMeetings env meetingId f w =
     (case request env w of
        (Some e, w1) \<Rightarrow> (Some e, w1)
      | (None, w1) \<Rightarrow>
          (None, w1\<lparr>meetings := map (\<lambda>m. if m_id m = meetingId then f m else m) (meetings w1)\<rparr>))"

definition generate :: "Env \<Rightarrow> Prompt \<Rightarrow> World \<Rightarrow> (string + string) \<times> World" where
  "generate env p w = (generateContent env p, w\<lparr>gen_calls := Suc (gen_calls w)\<rparr>)"

definition embed :: "Env \<Rightarrow> string \<Rightarrow> World \<Rightarrow> (string + real list) \<times> World" where
  "embed env text w = (embedContent env text, w\<lparr>embed_calls := Suc (embed_calls w)\<rparr>)"

definition sleep :: "nat \<Rightarrow> World \<Rightarrow> World" where
  "sleep ms w = w\<lparr>sleeps := sleeps w @ [ms]\<rparr>"


section \<open>Transcription (ai.service.ts, transcribeMeeting)\<close>

definition maxAttempts :: nat where
  "maxAttempts = 60"

text \<open>
  The polling loop, with the number of attempts made and the last answer read. It ends
  with that answer when the provider reports completion or the attempts are used up, and
  with an error when a poll fails or the provider reports an error.
\<close>

function pollLoop ::
  "Env \<Rightarrow> string \<Rightarrow> nat \<Rightarrow> AssemblyAITranscriptResponse option \<Rightarrow> World \<Rightarrow>
     (string + AssemblyAITranscriptResponse option) \<times> World" where
  "pollLoop env transcriptId attempts transcript w =
     (if attempts < maxAttempts then
        (case pollTranscript env transcriptId attempts of
           PollThrows e \<Rightarrow> (Inl e, w)
         | PollNotOk statusText \<Rightarrow> (Inl (''AssemblyAI polling failed: '' @ statusText), w)
         | PollOk t \<Rightarrow>
             if r_status t = TCompleted then (Inr (Some t), w)
             else if r_status t = TError then
               (Inl (''AssemblyAI transcription error: '' @
                      (case r_error t of Some e \<Rightarrow> e | None \<Rightarrow> ''undefined'')), w)
             else pollLoop env transcriptId (Suc attempts) (Some t) (sleep 5000 w))
      else (Inr transcript, w))"
  by pat_completeness auto
termination
  by (relation "measure (\<lambda>(env, tid, attempts, t, w). maxAttempts - attempts)") auto

declare pollLoop.simps [simp del]

text \<open>The body of the try block: submit, poll, store the transcript.\<close>

definition transcribeBody :: "Env \<Rightarrow> string \<Rightarrow> string \<Rightarrow> World \<Rightarrow> (string + string) \<times> World" where
  "transcribeBody env meetingId audioUrl w =
     (case submitTranscript env audioUrl of
        SubmitThrows e \<Rightarrow> (Inl e, w)
      | SubmitNotOk errorField statusText \<Rightarrow>
          (Inl (''AssemblyAI submission failed: '' @
                 (case errorField of
                    Some e \<Rightarrow> if e \<noteq> [] then e else statusText
                  | None \<Rightarrow> statusText)), w)
      | SubmitOk submitData \<Rightarrow>
          (case pollLoop env (r_id submitData) 0 None w of
             (Inl e, w1) \<Rightarrow> (Inl e, w1)
           | (Inr None, w1) \<Rightarrow> (Inl ''Transcription timed out'', w1)
           | (Inr (Some transcript), w1) \<Rightarrow>
               if r_status transcript \<noteq> TCompleted then (Inl ''Transcription timed out'', w1)
               else
                 let transcriptText = (case r_text transcript of Some t \<Rightarrow> t | None \<Rightarrow> [])
                 in (case updateMeetings env meetingId
                           (\<lambda>m. m\<lparr>m_transcript := Some transcriptText, m_status := Ready\<rparr>) w1 of
                       (Some e, w2) \<Rightarrow> (Inl (''Failed to update meeting transcript: '' @ e), w2)
                     | (None, w2) \<Rightarrow> (Inr transcriptText, w2))))"

text \<open>
  The key is read before the try block. The catch block writes the status failed (the
  outcome of that write is not looked at) and throws the message again.
\<close>

definition transcribeMeeting :: "Env \<Rightarrow> string \<Rightarrow> string \<Rightarrow> World \<Rightarrow> (string + string) \<times> World" where
  "transcribeMeeting env meetingId audioUrl w =
     (case getAssemblyAIKey env of
        Inl e \<Rightarrow> (Inl e, w)
      | Inr apiKey \<Rightarrow>
          (case transcribeBody env meetingId audioUrl w of
             (Inr transcriptText, w1) \<Rightarrow> (Inr transcriptText, w1)
           | (Inl errorMessage, w1) \<Rightarrow>
               (Inl errorMessage,
                snd (updateMeetings env meetingId (\<lambda>m. m\<lparr>m_status := Failed\<rparr>) w1))))"

section \<open>Insight extraction (ai.service.ts, extractMeetingInsights)\<close>

record MeetingInsightsResult =
  i_actionItems :: "ActionItem list"
  i_decisions :: "Decision list"

text \<open>The loop over the extracted action items: a failed insert is skipped.\<close>

fun insertActionItems ::
  "Env \<Rightarrow> string \<Rightarrow> ExtractedActionItem list \<Rightarrow> ActionItem list \<Rightarrow> World \<Rightarrow>
     ActionItem list \<times> World" where
  "insertActionItems env meetingId [] created w = (created, w)"
| "insertActionItems env meetingId (item # items) created w =
     (case request env w of
        (Some e, w1) \<Rightarrow> insertActionItems env meetingId items created w1
      | (None, w1) \<Rightarrow>
          let data = \<lparr>ai_id = next_id w1, ai_meeting_id = meetingId,
                      ai_description = x_description item,
                      ai_priority = (case x_priority item of Some p \<Rightarrow> p | None \<Rightarrow> Medium),
                      ai_due_date = orNull (x_due_date item),
                      ai_status = Pending\<rparr>
          in insertActionItems env meetingId items (created @ [data])
               (w1\<lparr>action_items := action_items w1 @ [data], next_id := Suc (next_id w1)\<rparr>))"

fun insertDecisions ::
  "Env \<Rightarrow> string \<Rightarrow> ExtractedDecision list \<Rightarrow> Decision list \<Rightarrow> World \<Rightarrow>
     Decision list \<times> World" where
  "insertDecisions env meetingId [] created w = (created, w)"
| "insertDecisions env meetingId (decision # rest) created w =
     (case request env w of
        (Some e, w1) \<Rightarrow> insertDecisions env meetingId rest created w1
      | (None, w1) \<Rightarrow>
          let data = \<lparr>d_id = next_id w1, d_meeting_id = meetingId,
                      d_decision_text = x_decision_text decision,
                      d_context = orNull (x_context decision),
                      d_tags = x_tags decision\<rparr>
          in insertDecisions env meetingId rest (created @ [data])
               (w1\<lparr>decisions := decisions w1 @ [data], next_id := Suc (next_id w1)\<rparr>))"

definition generateMeetingSummary :: "Env \<Rightarrow> string \<Rightarrow> World \<Rightarrow> string option \<times> World" where
  "generateMeetingSummary env transcript w =
     (case generate env (SummaryPrompt transcript) w of
        (Inl e, w1) \<Rightarrow> (None, w1)
      | (Inr text, w1) \<Rightarrow> (Some text, w1))"

definition extractMeetingInsights ::
  "Env \<Rightarrow> string \<Rightarrow> string \<Rightarrow> World \<Rightarrow> (string + MeetingInsightsResult) \<times> World" where
  "extractMeetingInsights env meetingId transcript w =
     (case getGeminiKey env of
        Inl e \<Rightarrow> (Inl e, w)
      | Inr apiKey \<Rightarrow>
          (case generate env (InsightsPrompt transcript) w of
             (Inl e, w1) \<Rightarrow> (Inl e, w1)
           | (Inr responseText, w1) \<Rightarrow>
               (case parseInsights env responseText of
                  None \<Rightarrow> (Inl ''Failed to parse AI response as JSON'', w1)
                | Some insights \<Rightarrow>
                    (case insertActionItems env meetingId
                            (case g_actionItems insights of Some items \<Rightarrow> items | None \<Rightarrow> []) [] w1 of
                       (createdActionItems, w2) \<Rightarrow>
                    (case insertDecisions env meetingId
                            (case g_decisions insights of Some ds \<Rightarrow> ds | None \<Rightarrow> []) [] w2 of
                       (createdDecisions, w3) \<Rightarrow>
                    (case generateMeetingSummary env transcript w3 of
                       (summary, w4) \<Rightarrow>
                         (Inr \<lparr>i_actionItems = createdActionItems, i_decisions = createdDecisions\<rparr>,
                          if truthy summary
                          then snd (updateMeetings env meetingId (\<lambda>m. m\<lparr>m_summary := summary\<rparr>) w4)
                          else w4)))))))"


section \<open>Topics and embeddings (ai.service.ts, updateTopicsAndEmbeddings)\<close>

definition extractTopics :: "Env \<Rightarrow> string \<Rightarrow> World \<Rightarrow> string list \<times> World" where
  "extractTopics env transcript w =
     (case generate env (TopicsPrompt transcript) w of
        (Inl e, w1) \<Rightarrow> ([], w1)
      | (Inr responseText, w1) \<Rightarrow>
          (case parseStrings env responseText of
             None \<Rightarrow> ([], w1)
           | Some ts \<Rightarrow> (filter (\<lambda>t. length t > 0) ts, w1)))"

text \<open>
  The insert into meeting_topics. The pair (meeting_id, topic_id) is the primary key: a
  second insert of a pair is refused by the store, and the caller lets that pass.
\<close>

definition linkTopic :: "Env \<Rightarrow> string \<Rightarrow> nat \<Rightarrow> World \<Rightarrow> World" where
  "linkTopic env meetingId topicId w =
     (case request env w of
        (Some e, w1) \<Rightarrow> w1
      | (None, w1) \<Rightarrow>
          let link = \<lparr>mt_meeting_id = meetingId, mt_topic_id = topicId\<rparr>
          in if link \<in> set (meeting_topics w1) then w1
             else w1\<lparr>meeting_topics := meeting_topics w1 @ [link]\<rparr>)"

text \<open>
  \<^verbatim>\<open>select(...).eq('name', normalizedName).single()\<close> gives a row only when exactly one
  row matches; otherwise, and when the request fails, the topic counts as not existing.
\<close>

definition findTopic :: "Env \<Rightarrow> string \<Rightarrow> World \<Rightarrow> Topic option \<times> World" where
  "findTopic env normalizedName w =
     (case request env w of
        (Some e, w1) \<Rightarrow> (None, w1)
      | (None, w1) \<Rightarrow>
          (case filter (\<lambda>t. t_name t = normalizedName) (topics w1) of
             [t] \<Rightarrow> (Some t, w1)
           | _ \<Rightarrow> (None, w1)))"

definition upsertTopicAndLink :: "Env \<Rightarrow> string \<Rightarrow> string \<Rightarrow> World \<Rightarrow> World" where
  "upsertTopicAndLink env meetingId topicName w =
     (let normalizedName = trim (toLowerCase topicName)
      in case findTopic env normalizedName w of
           (Some existingTopic, w1) \<Rightarrow>
             let topicId = t_id existingTopic
             in (case request env w1 of
                   (Some e, w2) \<Rightarrow> linkTopic env meetingId topicId w2
                 | (None, w2) \<Rightarrow>
                     linkTopic env meetingId topicId
                       (w2\<lparr>topics :=
                          map (\<lambda>t. if t_id t = topicId
                                    then t\<lparr>t_meeting_count :=
                                             Some ((case t_meeting_count existingTopic of
                                                      Some n \<Rightarrow> n | None \<Rightarrow> 0) + 1),
                                           t_last_discussed := Some (now env (requests w2))\<rparr>
                                    else t)
                            (topics w2)\<rparr>))
         | (None, w1) \<Rightarrow>
             (case request env w1 of
                (Some e, w2) \<Rightarrow> w2
              | (None, w2) \<Rightarrow>
                  let newTopic = \<lparr>t_id = next_id w2, t_name = normalizedName,
                                  t_meeting_count = Some 1,
                                  t_last_discussed = Some (now env (requests w2))\<rparr>
                  in linkTopic env meetingId (t_id newTopic)
                       (w2\<lparr>topics := topics w2 @ [newTopic], next_id := Suc (next_id w2)\<rparr>)))"

text \<open>The loop over the chunks with their index: a chunk whose embedding or insert fails is skipped.\<close>

fun storeChunks :: "Env \<Rightarrow> string \<Rightarrow> string list \<Rightarrow> nat \<Rightarrow> World \<Rightarrow> World" where
  "storeChunks env meetingId [] i w = w"
| "storeChunks env meetingId (chunk # chunks) i w =
     (case embed env chunk w of
        (Inl e, w1) \<Rightarrow> storeChunks env meetingId chunks (Suc i) w1
      | (Inr embedding, w1) \<Rightarrow>
          (case request env w1 of
             (Some e, w2) \<Rightarrow> storeChunks env meetingId chunks (Suc i) w2
           | (None, w2) \<Rightarrow>
               storeChunks env meetingId chunks (Suc i)
                 (w2\<lparr>meeting_embeddings := meeting_embeddings w2 @
                        [\<lparr>e_id = next_id w2, e_meeting_id = meetingId, e_embedding = embedding,
                          e_content_chunk = chunk, e_chunk_index = i\<rparr>],
                      next_id := Suc (next_id w2)\<rparr>)))"

text \<open>\<^verbatim>\<open>from('meeting_embeddings').delete().eq('meeting_id', meetingId)\<close>.\<close>

definition deleteEmbeddings :: "Env \<Rightarrow> string \<Rightarrow> World \<Rightarrow> string option \<times> World" where
  "deleteEmbeddings env meetingId w =
     (case request env w of
        (Some e, w1) \<Rightarrow> (Some e, w1)
      | (None, w1) \<Rightarrow>
          (None, w1\<lparr>meeting_embeddings :=
                      filter (\<lambda>r. e_meeting_id r \<noteq> meetingId) (meeting_embeddings w1)\<rparr>))"

text \<open>
  The chunk size is the constant 500, for which the chunking loop returns (lemma
  \<open>splitIntoChunks_returns\<close> below); the other branch is never taken.
\<close>

definition generateAndStoreEmbeddings :: "Env \<Rightarrow> string \<Rightarrow> string \<Rightarrow> World \<Rightarrow> World" where
  "generateAndStoreEmbeddings env meetingId transcript w =
     (case splitIntoChunks transcript 500 of
        None \<Rightarrow> w
      | Some chunks \<Rightarrow> storeChunks env meetingId chunks 0 (snd (deleteEmbeddings env meetingId w)))"

definition updateTopicsAndEmbeddings ::
  "Env \<Rightarrow> string \<Rightarrow> string \<Rightarrow> World \<Rightarrow> (string + unit) \<times> World" where
  "updateTopicsAndEmbeddings env meetingId transcript w =
     (case getGeminiKey env of
        Inl e \<Rightarrow> (Inl e, w)
      | Inr apiKey \<Rightarrow>
          (case extractTopics env transcript w of
             (topicNames, w1) \<Rightarrow>
               (Inr (),
                generateAndStoreEmbeddings env meetingId transcript
                  (foldl (\<lambda>w' topicName. upsertTopicAndLink env meetingId topicName w') w1 topicNames))))"

section \<open>The full pipeline (ai.service.ts, processMeeting)\<close>

record ProcessedMeeting =
  p_transcript :: string
  p_actionItems :: "ActionItem list"
  p_decisions :: "Decision list"

definition processMeeting ::
  "Env \<Rightarrow> string \<Rightarrow> string \<Rightarrow> World \<Rightarrow> (string + ProcessedMeeting) \<times> World" where
  "processMeeting env meetingId audioUrl w =
     (case transcribeMeeting env meetingId audioUrl w of
        (Inl e, w1) \<Rightarrow> (Inl e, w1)
      | (Inr transcript, w1) \<Rightarrow>
          (case extractMeetingInsights env meetingId transcript w1 of
             (Inl e, w2) \<Rightarrow> (Inl e, w2)
           | (Inr insights, w2) \<Rightarrow>
               (case updateTopicsAndEmbeddings env meetingId transcript w2 of
                  (Inl e, w3) \<Rightarrow> (Inl e, w3)
                | (Inr u, w3) \<Rightarrow>
                    (Inr \<lparr>p_transcript = transcript, p_actionItems = i_actionItems insights,
                          p_decisions = i_decisions insights\<rparr>, w3))))"

section \<open>The orchestrator (unnamed/part_003)\<close>

record MeetingProcessingResult =
  res_success :: bool
  res_meetingId :: string
  res_transcript :: "string option"
  res_actionItems :: "ActionItem list"
  res_decisions :: "Decision list"
  res_error :: "string option"

definition updateMeetingStatus :: "Env \<Rightarrow> string \<Rightarrow> ProcessingStatus \<Rightarrow> World \<Rightarrow> World" where
  "updateMeetingStatus env mid status w =
     snd (updateMeetings env mid (\<lambda>m. m\<lparr>m_status := status\<rparr>) w)"

text \<open>\<^verbatim>\<open>select('*').eq('id', meetingId).single()\<close>: null on an error.\<close>

definition getMeeting :: "Env \<Rightarrow> string \<Rightarrow> World \<Rightarrow> Meeting option \<times> World" where
  "getMeeting env mid w =
     (case request env w of
        (Some e, w1) \<Rightarrow> (None, w1)
      | (None, w1) \<Rightarrow>
          (case filter (\<lambda>m. m_id m = mid) (meetings w1) of
             [m] \<Rightarrow> (Some m, w1)
           | _ \<Rightarrow> (None, w1)))"

definition deleteExistingActionItems :: "Env \<Rightarrow> string \<Rightarrow> World \<Rightarrow> World" where
  "deleteExistingActionItems env mid w =
     (case request env w of
        (Some e, w1) \<Rightarrow> w1
      | (None, w1) \<Rightarrow>
          w1\<lparr>action_items := filter (\<lambda>r. ai_meeting_id r \<noteq> mid) (action_items w1)\<rparr>)"

definition deleteExistingDecisions :: "Env \<Rightarrow> string \<Rightarrow> World \<Rightarrow> World" where
  "deleteExistingDecisions env mid w =
     (case request env w of
        (Some e, w1) \<Rightarrow> w1
      | (None, w1) \<Rightarrow>
          w1\<lparr>decisions := filter (\<lambda>r. d_meeting_id r \<noteq> mid) (decisions w1)\<rparr>)"

definition deleteExistingMeetingTopics :: "Env \<Rightarrow> string \<Rightarrow> World \<Rightarrow> World" where
  "deleteExistingMeetingTopics env mid w =
     (case request env w of
        (Some e, w1) \<Rightarrow> w1
      | (None, w1) \<Rightarrow>
          w1\<lparr>meeting_topics := filter (\<lambda>r. mt_meeting_id r \<noteq> mid) (meeting_topics w1)\<rparr>)"

definition deleteExistingEmbeddings :: "Env \<Rightarrow> string \<Rightarrow> World \<Rightarrow> World" where
  "deleteExistingEmbeddings env mid w = snd (deleteEmbeddings env mid w)"

definition failure :: "string \<Rightarrow> string \<Rightarrow> MeetingProcessingResult" where
  "failure mid errorMessage =
     \<lparr>res_success = False, res_meetingId = mid, res_transcript = None, res_actionItems = [],
      res_decisions = [], res_error = Some errorMessage\<rparr>"

definition handleNewMeeting ::
  "Env \<Rightarrow> string \<Rightarrow> string \<Rightarrow> World \<Rightarrow> MeetingProcessingResult \<times> World" where
  "handleNewMeeting env mid audioUrl w =
     (case processMeeting env mid audioUrl (updateMeetingStatus env mid Processing w) of
        (Inr result, w1) \<Rightarrow>
          (\<lparr>res_success = True, res_meetingId = mid,
            res_transcript = Some (p_transcript result),
            res_actionItems = p_actionItems result, res_decisions = p_decisions result,
            res_error = None\<rparr>, w1)
      | (Inl errorMessage, w1) \<Rightarrow>
          (failure mid errorMessage, updateMeetingStatus env mid Failed w1))"


text \<open>The four deletions of the cleanup act on four different tables.\<close>

definition cleanup :: "Env \<Rightarrow> string \<Rightarrow> World \<Rightarrow> World" where
  "cleanup env mid w =
     deleteExistingEmbeddings env mid
       (deleteExistingMeetingTopics env mid
          (deleteExistingDecisions env mid
             (deleteExistingActionItems env mid w)))"

text \<open>The try block of handleUpdatedMeeting.\<close>

definition reprocessBody ::
  "Env \<Rightarrow> string \<Rightarrow> string option \<Rightarrow> World \<Rightarrow> (string + MeetingProcessingResult) \<times> World" where
  "reprocessBody env mid newAudioUrl w =
     (case getMeeting env mid w of
        (None, w1) \<Rightarrow> (Inl (''Meeting '' @ mid @ '' not found''), w1)
      | (Some meeting, w1) \<Rightarrow>
          let w2 = cleanup env mid (updateMeetingStatus env mid Processing w1)
          in (case (if truthy newAudioUrl
                    then transcribeMeeting env mid (case newAudioUrl of Some u \<Rightarrow> u | None \<Rightarrow> []) w2
                    else if truthy (m_transcript meeting)
                    then (Inr (case m_transcript meeting of Some t \<Rightarrow> t | None \<Rightarrow> []), w2)
                    else (Inl ''No audio URL provided and no existing transcript found'', w2)) of
                (Inl e, w3) \<Rightarrow> (Inl e, w3)
              | (Inr text, w3) \<Rightarrow>
                  (case extractMeetingInsights env mid text w3 of
                     (Inl e, w4) \<Rightarrow> (Inl e, w4)
                   | (Inr insights, w4) \<Rightarrow>
                       (case updateTopicsAndEmbeddings env mid text w4 of
                          (Inl e, w5) \<Rightarrow> (Inl e, w5)
                        | (Inr u, w5) \<Rightarrow>
                            (Inr \<lparr>res_success = True, res_meetingId = mid,
                                  res_transcript = Some text,
                                  res_actionItems = i_actionItems insights,
                                  res_decisions = i_decisions insights,
                                  res_error = None\<rparr>,
                             updateMeetingStatus env mid Ready w5)))))"

definition handleUpdatedMeeting ::
  "Env \<Rightarrow> string \<Rightarrow> string option \<Rightarrow> World \<Rightarrow> MeetingProcessingResult \<times> World" where
  "handleUpdatedMeeting env mid newAudioUrl w =
     (case reprocessBody env mid newAudioUrl w of
        (Inr result, w1) \<Rightarrow> (result, w1)
      | (Inl errorMessage, w1) \<Rightarrow>
          (failure mid errorMessage, updateMeetingStatus env mid Failed w1))"

text \<open>The loop of batchProcessMeetings: a delay after every meeting but the last.\<close>

definition batchDelay :: nat where
  "batchDelay = 1000"



text \<open>
  reprocessFailedMeetings: the rows (id, video_url) of the meetings whose status is
  failed are read once; each is then processed, with a delay after every one.
\<close>

definition retryDelay :: nat where
  "retryDelay = 2000"

definition selectFailed :: "World \<Rightarrow> (string \<times> string option) list" where
  "selectFailed w =
     map (\<lambda>m. (m_id m, m_video_url m)) (filter (\<lambda>m. m_status m = Failed) (meetings w))"

fun retryLoop ::
  "Env \<Rightarrow> (string \<times> string option) list \<Rightarrow> MeetingProcessingResult list \<Rightarrow> World \<Rightarrow>
     MeetingProcessingResult list \<times> World" where
  "retryLoop env [] results w = (results, w)"
| "retryLoop env ((mid, video_url) # rest) results w =
     (case (if truthy video_url
            then handleNewMeeting env mid (case video_url of Some u \<Rightarrow> u | None \<Rightarrow> []) w
            else handleUpdatedMeeting env mid None w) of
        (result, w1) \<Rightarrow> retryLoop env rest (results @ [result]) (sleep retryDelay w1))"

definition reprocessFailedMeetings :: "Env \<Rightarrow> World \<Rightarrow> MeetingProcessingResult list \<times> World" where
  "reprocessFailedMeetings env w =
     (case request env w of
        (Some e, w1) \<Rightarrow> ([], w1)
      | (None, w1) \<Rightarrow>
          let failedMeetings = selectFailed w1
          in if failedMeetings = [] then ([], w1) else retryLoop env failedMeetings [] w1)"


section \<open>Semantic search (qa.service in topics.service.ts, and ai.service.ts, searchMeetings)\<close>

record MeetingSearchResult =
  sr_meetingId :: string
  sr_snippet :: string
  sr_relevance :: real

text \<open>
  \<^verbatim>\<open>sort((a, b) => b.relevance - a.relevance)\<close>: the array in descending order of the
  key, rows of equal key in their former order.
\<close>

definition sortDescending :: "('a \<Rightarrow> real) \<Rightarrow> 'a list \<Rightarrow> 'a list" where
  "sortDescending key xs = sort_key (\<lambda>x. - key x) xs"

text \<open>
  The loop over the sorted results with the set of the meetings seen and the results
  kept so far; it is left as soon as the number kept reaches \<open>topK\<close>, which is tested
  after a result has been added.
\<close>

fun dedupLoop ::
  "int \<Rightarrow> MeetingSearchResult list \<Rightarrow> string set \<Rightarrow> MeetingSearchResult list \<Rightarrow>
     MeetingSearchResult list" where
  "dedupLoop topK [] seenMeetings deduplicatedResults = deduplicatedResults"
| "dedupLoop topK (result # rest) seenMeetings deduplicatedResults =
     (if sr_meetingId result \<notin> seenMeetings then
        (let kept = deduplicatedResults @ [result]
         in if int (length kept) \<ge> topK then kept
            else dedupLoop topK rest (insert (sr_meetingId result) seenMeetings) kept)
      else dedupLoop topK rest seenMeetings deduplicatedResults)"

definition scoredResults :: "real list \<Rightarrow> MeetingEmbedding list \<Rightarrow> MeetingSearchResult list" where
  "scoredResults queryEmbedding embeddings =
     map (\<lambda>row. \<lparr>sr_meetingId = e_meeting_id row,
                     sr_snippet = truncateSnippet (e_content_chunk row) 300,
                     sr_relevance = cosineSimilarity queryEmbedding (e_embedding row)\<rparr>)
       embeddings"

definition searchMeetings ::
  "Env \<Rightarrow> string \<Rightarrow> int \<Rightarrow> World \<Rightarrow> (string + MeetingSearchResult list) \<times> World" where
  "searchMeetings env query topK w =
     (if query = [] \<or> length (trim query) = 0 then (Inl ''Search query cannot be empty'', w)
      else
        (case getGeminiKey env of
           Inl e \<Rightarrow> (Inl e, w)
         | Inr apiKey \<Rightarrow>
             (case embed env (trim query) w of
                (Inl e, w1) \<Rightarrow> (Inl (''Search failed: '' @ e), w1)
              | (Inr queryEmbedding, w1) \<Rightarrow>
                  (case request env w1 of
                     (Some e, w2) \<Rightarrow>
                       (Inl (''Search failed: '' @ ''Failed to fetch embeddings: '' @ e), w2)
                   | (None, w2) \<Rightarrow>
                       if meeting_embeddings w2 = [] then (Inr [], w2)
                       else
                         (Inr (dedupLoop topK
                                 (sortDescending sr_relevance
                                    (scoredResults queryEmbedding (meeting_embeddings w2)))
                                 {} []), w2)))))"




section \<open>Question answering (qa.service in topics.service.ts, answerMeetingQuestion)\<close>

record AnswerSource =
  src_meetingId :: string
  src_snippet :: string

record QAResult =
  answer :: string
  sources :: "AnswerSource list"

record RelevantChunk =
  rc_meetingId :: string
  rc_content :: string
  rc_relevance :: real

definition findRelevantChunks ::
  "Env \<Rightarrow> string \<Rightarrow> int \<Rightarrow> World \<Rightarrow> (string + RelevantChunk list) \<times> World" where
  "findRelevantChunks env query topK w =
     (case embed env (trim query) w of
        (Inl e, w1) \<Rightarrow> (Inl e, w1)
      | (Inr queryEmbedding, w1) \<Rightarrow>
          (case request env w1 of
             (Some e, w2) \<Rightarrow> (Inl (''Failed to fetch embeddings: '' @ e), w2)
           | (None, w2) \<Rightarrow>
               if meeting_embeddings w2 = [] then (Inr [], w2)
               else
                 (Inr (sliceTo
                         (sortDescending rc_relevance
                            (map (\<lambda>row. \<lparr>rc_meetingId = e_meeting_id row,
                                            rc_content = e_content_chunk row,
                                            rc_relevance =
                                              cosineSimilarity queryEmbedding (e_embedding row)\<rparr>)
                               (meeting_embeddings w2)))
                         topK), w2)))"

definition noContentAnswer :: string where
  "noContentAnswer =
     ''I could not find any relevant meeting content to answer your question. '' @
     ''Please try rephrasing your question or ensure meetings have been processed.''"

definition answerMeetingQuestion ::
  "Env \<Rightarrow> string \<Rightarrow> int \<Rightarrow> World \<Rightarrow> (string + QAResult) \<times> World" where
  "answerMeetingQuestion env question topK w =
     (if question = [] \<or> length (trim question) = 0 then (Inl ''Question cannot be empty'', w)
      else
        (case getGeminiKey env of
           Inl e \<Rightarrow> (Inl e, w)
         | Inr apiKey \<Rightarrow>
             (case findRelevantChunks env question topK w of
                (Inl e, w1) \<Rightarrow> (Inl (''Q&A failed: '' @ e), w1)
              | (Inr relevantChunks, w1) \<Rightarrow>
                  if length relevantChunks = 0
                  then (Inr \<lparr>answer = noContentAnswer, sources = []\<rparr>, w1)
                  else
                    (case generate env (AnswerPrompt (map rc_content relevantChunks) question) w1 of
                       (Inl e, w2) \<Rightarrow> (Inl (''Q&A failed: '' @ e), w2)
                     | (Inr text, w2) \<Rightarrow>
                         (Inr \<lparr>answer = trim text,
                               sources =
                                 map (\<lambda>chunk. \<lparr>src_meetingId = rc_meetingId chunk,
                                                src_snippet = truncateSnippet (rc_content chunk) 200\<rparr>)
                                   relevantChunks\<rparr>, w2)))))"

text \<open>The orchestrator's wrapper: it returns an answer in every case.\<close>

definition getAnswerForQuestion :: "Env \<Rightarrow> string \<Rightarrow> int \<Rightarrow> World \<Rightarrow> QAResult \<times> World" where
  "getAnswerForQuestion env question topK w =
     (if question = [] \<or> length (trim question) = 0
      then (\<lparr>answer = ''Please provide a valid question.'', sources = []\<rparr>, w)
      else
        (case answerMeetingQuestion env question topK w of
           (Inr result, w1) \<Rightarrow> (\<lparr>answer = answer result, sources = sources result\<rparr>, w1)
         | (Inl errorMessage, w1) \<Rightarrow>
             (\<lparr>answer = ''I encountered an error while trying to answer your question: '' @
                        errorMessage @ ''. Please try again.'',
               sources = []\<rparr>, w1)))"


section \<open>Notions used to state the properties\<close>

text \<open>The store answers every request.\<close>

definition storeReliable :: "Env \<Rightarrow> bool" where
  "storeReliable env = (\<forall>n. storeFails env n = None)"

text \<open>The occurrence counter of a topic, a missing value read as 0 as the code does.\<close>

definition topicCount :: "Topic \<Rightarrow> int" where
  "topicCount t = (case t_meeting_count t of Some n \<Rightarrow> n | None \<Rightarrow> 0)"

text \<open>
  The table of topics is well formed: the ids are a key, and each one has been handed
  out by the generator.
\<close>

definition wfTopics :: "World \<Rightarrow> bool" where
  "wfTopics w = (distinct (map t_id (topics w)) \<and> (\<forall>t\<in>set (topics w). t_id t < next_id w))"

text \<open>Every topic of \<open>w\<close> is still a topic of \<open>w'\<close>, with a counter that is not smaller.\<close>

definition topicsGrow :: "World \<Rightarrow> World \<Rightarrow> bool" where
  "topicsGrow w w' =
     (\<forall>t\<in>set (topics w). \<exists>t'\<in>set (topics w').
         t_id t' = t_id t \<and> t_name t' = t_name t \<and> topicCount t \<le> topicCount t')"

text \<open>
  What every operation of the pipeline keeps: the meetings stay the same rows (none is
  created or deleted), identifiers are only handed out, and a well-formed table of topics
  stays well formed and only grows.
\<close>

definition evolves :: "World \<Rightarrow> World \<Rightarrow> bool" where
  "evolves w w' =
     (map m_id (meetings w') = map m_id (meetings w) \<and> next_id w \<le> next_id w' \<and>
      (wfTopics w \<longrightarrow> wfTopics w' \<and> topicsGrow w w'))"

text \<open>Only the meetings (not their ids), the request count and the delays differ.\<close>

definition meetingsOnly :: "World \<Rightarrow> World \<Rightarrow> bool" where
  "meetingsOnly w w' =
     (map m_id (meetings w') = map m_id (meetings w) \<and>
      action_items w' = action_items w \<and> decisions w' = decisions w \<and>
      topics w' = topics w \<and> meeting_topics w' = meeting_topics w \<and>
      meeting_embeddings w' = meeting_embeddings w \<and> next_id w' = next_id w \<and>
      gen_calls w' = gen_calls w \<and> embed_calls w' = embed_calls w)"


text \<open>The status of a meeting set by hand.\<close>

definition withStatus :: "string \<Rightarrow> ProcessingStatus \<Rightarrow> World \<Rightarrow> World" where
  "withStatus mid status w =
     w\<lparr>meetings := map (\<lambda>m. if m_id m = mid then m\<lparr>m_status := status\<rparr> else m) (meetings w)\<rparr>"


section \<open>Sample environments and worlds\<close>

text \<open>
  An environment in which every provider answers at once and the store never fails: the
  transcript is two words, the model extracts one action item, one decision and one
  topic, and every text has the same embedding.
\<close>

definition sampleInsights :: GeminiInsightsResponse where
  "sampleInsights =
     \<lparr>g_actionItems = Some [\<lparr>x_description = ''send notes'', x_due_date = None, x_priority = None\<rparr>],
      g_decisions = Some [\<lparr>x_decision_text = ''ship it'', x_context = None, x_tags = None\<rparr>],
      g_topics = None\<rparr>"

definition sampleEnv :: Env where
  "sampleEnv =
     \<lparr>assemblyaiKey = Some ''k1'', geminiKey = Some ''k2'',
      submitTranscript =
        (\<lambda>u. SubmitOk \<lparr>r_id = ''job'', r_status = TQueued, r_text = None, r_error = None\<rparr>),
      pollTranscript =
        (\<lambda>tid n. PollOk \<lparr>r_id = tid, r_status = TCompleted, r_text = Some ''hello world'',
                         r_error = None\<rparr>),
      generateContent = (\<lambda>p. Inr ''ok''),
      embedContent = (\<lambda>t. Inr [1]),
      parseInsights = (\<lambda>s. Some sampleInsights),
      parseStrings = (\<lambda>s. Some ['' Budget'']),
      storeFails = (\<lambda>n. None),
      now = (\<lambda>n. ''t'')\<rparr>"

text \<open>The same environment with a transcription provider that never completes a job.\<close>

definition stalledEnv :: Env where
  "stalledEnv =
     sampleEnv\<lparr>pollTranscript :=
        (\<lambda>tid n. PollOk \<lparr>r_id = tid, r_status = TProcessing, r_text = None, r_error = None\<rparr>)\<rparr>"

text \<open>The same environment with an embedding model that fails.\<close>

definition failingEnv :: Env where
  "failingEnv = sampleEnv\<lparr>embedContent := (\<lambda>t. Inl ''boom'')\<rparr>"

definition emptyWorld :: World where
  "emptyWorld =
     \<lparr>meetings = [], action_items = [], decisions = [], topics = [], meeting_topics = [],
      meeting_embeddings = [], next_id = 0, requests = 0, gen_calls = 0, embed_calls = 0,
      sleeps = []\<rparr>"

definition sampleMeeting :: "string \<Rightarrow> ProcessingStatus \<Rightarrow> Meeting" where
  "sampleMeeting mid status =
     \<lparr>m_id = mid, m_status = status, m_transcript = None, m_summary = None,
      m_video_url = Some ''u''\<rparr>"

text \<open>Two meetings, one stored chunk each, with equal embeddings.\<close>

definition twoChunkWorld :: World where
  "twoChunkWorld =
     emptyWorld\<lparr>meetings := [sampleMeeting ''m1'' Ready, sampleMeeting ''m2'' Ready],
       meeting_embeddings :=
         [\<lparr>e_id = 0, e_meeting_id = ''m1'', e_embedding = [1], e_content_chunk = ''a'',
           e_chunk_index = 0\<rparr>,
          \<lparr>e_id = 1, e_meeting_id = ''m2'', e_embedding = [1], e_content_chunk = ''b'',
           e_chunk_index = 0\<rparr>],
       next_id := 2\<rparr>"


text \<open>One meeting, ready, with no derived rows; and the same meeting marked as processing.\<close>

definition readyWorld :: World where
  "readyWorld = emptyWorld\<lparr>meetings := [sampleMeeting ''m1'' Ready]\<rparr>"

definition busyWorld :: World where
  "busyWorld = emptyWorld\<lparr>meetings := [sampleMeeting ''m1'' Processing]\<rparr>"



text \<open>
  The meeting processed with success, and then once more with a transcription provider
  that never completes the job.
\<close>

definition afterFirstRun :: World where
  "afterFirstRun = snd (handleNewMeeting sampleEnv ''m1'' ''u'' readyWorld)"

definition afterStalledRun :: World where
  "afterStalledRun = snd (handleNewMeeting stalledEnv ''m1'' ''u'' afterFirstRun)"

text \<open>The definitions a run unfolds.\<close>

lemmas run_defs =
  handleNewMeeting_def processMeeting_def transcribeMeeting_def transcribeBody_def
  handleUpdatedMeeting_def reprocessBody_def cleanup_def getMeeting_def
  deleteExistingActionItems_def deleteExistingDecisions_def deleteExistingMeetingTopics_def
  deleteExistingEmbeddings_def
  getAssemblyAIKey_def getGeminiKey_def updateMeetings_def updateMeetingStatus_def request_def
  extractMeetingInsights_def generate_def generateMeetingSummary_def truthy_def orNull_def
  updateTopicsAndEmbeddings_def extractTopics_def upsertTopicAndLink_def findTopic_def
  linkTopic_def generateAndStoreEmbeddings_def deleteEmbeddings_def embed_def
  splitIntoChunks_def splitWs_def chunkLoop.simps trim_def is_ws_def toLowerCase_def
  lowerChar_def failure_def sleep_def
  sampleEnv_def sampleInsights_def emptyWorld_def sampleMeeting_def

section \<open>What the operations keep\<close>


lemma evolves_refl: "evolves w w"
  by (simp add: evolves_def topicsGrow_def) blast

lemma topicsGrow_trans: "topicsGrow a b \<Longrightarrow> topicsGrow b c \<Longrightarrow> topicsGrow a c"
  unfolding topicsGrow_def
  by (metis (no_types, opaque_lifting) order_trans)

lemma evolves_trans: "evolves a b \<Longrightarrow> evolves b c \<Longrightarrow> evolves a c"
  unfolding evolves_def using topicsGrow_trans by (metis order_trans)

lemma evolves_frame:
  "map m_id (meetings w') = map m_id (meetings w) \<Longrightarrow> topics w' = topics w \<Longrightarrow>
   next_id w \<le> next_id w' \<Longrightarrow> evolves w w'"
  by (auto simp: evolves_def wfTopics_def topicsGrow_def)



lemma meetingsOnly_evolves: "meetingsOnly w w' \<Longrightarrow> evolves w w'"
  by (rule evolves_frame) (simp_all add: meetingsOnly_def)

lemma request_meetingsOnly: "request env w = (r, w1) \<Longrightarrow> meetingsOnly w w1"
  by (auto simp: request_def meetingsOnly_def)











lemma request_evolves: "request env w = (r, w1) \<Longrightarrow> evolves w w1"
  by (rule meetingsOnly_evolves [OF request_meetingsOnly])


lemma embed_evolves: "embed env t w = (r, w1) \<Longrightarrow> evolves w w1"
  by (rule evolves_frame) (auto simp: embed_def)








lemma findTopic_world:
  "findTopic env name w = (r, w1) \<Longrightarrow> w1 = w\<lparr>requests := Suc (requests w)\<rparr>"
  by (auto simp: findTopic_def request_def split: option.splits list.splits)









lemma storeChunks_evolves: "evolves w (storeChunks env mid chunks i w)"
proof (induction chunks arbitrary: i w)
  case Nil
  show ?case by (simp add: evolves_refl)
next
  case (Cons chunk chunks)
  obtain v w1 where em: "embed env chunk w = (v, w1)" by (cases "embed env chunk w")
  have e1: "evolves w w1" by (rule embed_evolves [OF em])
  show ?case
  proof (cases v)
    case (Inl e)
    then have "storeChunks env mid (chunk # chunks) i w = storeChunks env mid chunks (Suc i) w1"
      using em by simp
    then show ?thesis using evolves_trans [OF e1 Cons.IH [of w1 "Suc i"]] by simp
  next
    case (Inr embedding)
    obtain e w2 where q: "request env w1 = (e, w2)" by (cases "request env w1")
    have e2: "evolves w w2" by (rule evolves_trans [OF e1 request_evolves [OF q]])
    show ?thesis
    proof (cases e)
      case (Some msg)
      then have "storeChunks env mid (chunk # chunks) i w = storeChunks env mid chunks (Suc i) w2"
        using em Inr q by simp
      then show ?thesis using evolves_trans [OF e2 Cons.IH [of w2 "Suc i"]] by simp
    next
      case None
      let ?w3 = "w2\<lparr>meeting_embeddings := meeting_embeddings w2 @
                        [\<lparr>e_id = next_id w2, e_meeting_id = mid, e_embedding = embedding,
                          e_content_chunk = chunk, e_chunk_index = i\<rparr>],
                      next_id := Suc (next_id w2)\<rparr>"
      have e3: "evolves w2 ?w3" by (rule evolves_frame) simp_all
      have "storeChunks env mid (chunk # chunks) i w = storeChunks env mid chunks (Suc i) ?w3"
        using em Inr q None by simp
      then show ?thesis
        using evolves_trans [OF evolves_trans [OF e2 e3] Cons.IH [of ?w3 "Suc i"]] by simp
    qed
  qed
qed









lemma getMeeting_world:
  "getMeeting env mid w = (r, w1) \<Longrightarrow> w1 = w\<lparr>requests := Suc (requests w)\<rparr>"
  by (auto simp: getMeeting_def request_def split: option.splits list.splits)

















section \<open>Sample runs\<close>

lemma status_overwritten:
  "map (\<lambda>m. if m_id m = mid then m\<lparr>m_status := s\<rparr> else m)
     (map (\<lambda>m. if m_id m = mid then m\<lparr>m_status := s0\<rparr> else m) ms) =
   map (\<lambda>m. if m_id m = mid then m\<lparr>m_status := s\<rparr> else m) ms"
  by (induction ms) simp_all

lemma sampleEnv_reliable: "storeReliable sampleEnv"
  by (simp add: storeReliable_def sampleEnv_def)

text \<open>A provider that never completes a job uses up the attempts.\<close>

lemma pollLoop_stalled:
  assumes "\<And>k. pollTranscript env tid k = PollOk resp" and "r_status resp = TProcessing"
  shows "attempts < maxAttempts \<Longrightarrow>
         pollLoop env tid attempts t w =
           (Inr (Some resp), w\<lparr>sleeps := sleeps w @ replicate (maxAttempts - attempts) 5000\<rparr>)"
proof (induction "maxAttempts - attempts" arbitrary: attempts t w)
  case 0
  then show ?case by simp
next
  case (Suc n)
  note lt = \<open>attempts < maxAttempts\<close>
  show ?case
  proof (cases "Suc attempts < maxAttempts")
    case True
    have "n = maxAttempts - Suc attempts" using Suc.hyps(2) by simp
    then have ih: "pollLoop env tid (Suc attempts) (Some resp) (sleep 5000 w) =
        (Inr (Some resp),
         (sleep 5000 w)\<lparr>sleeps := sleeps (sleep 5000 w) @ replicate (maxAttempts - Suc attempts) 5000\<rparr>)"
      using True by (rule Suc.hyps(1))
    have r: "replicate (maxAttempts - attempts) (5000::nat) =
             5000 # replicate (maxAttempts - Suc attempts) 5000"
      using lt by (metis Suc_diff_Suc replicate_Suc)
    show ?thesis
      using lt ih
      by (subst pollLoop.simps) (simp add: assms sleep_def r)
  next
    case False
    then have last: "maxAttempts - attempts = 1" "\<not> Suc attempts < maxAttempts"
      using lt by simp_all
    have "pollLoop env tid (Suc attempts) (Some resp) (sleep 5000 w) =
        (Inr (Some resp), sleep 5000 w)"
      using last(2) by (subst pollLoop.simps) simp
    then show ?thesis
      using lt last(1)
      by (subst pollLoop.simps) (simp add: assms sleep_def)
  qed
qed

lemma stalledEnv_fields:
  "assemblyaiKey stalledEnv = Some ''k1''"
  "submitTranscript stalledEnv url =
     SubmitOk \<lparr>r_id = ''job'', r_status = TQueued, r_text = None, r_error = None\<rparr>"
  "pollTranscript stalledEnv tid k =
     PollOk \<lparr>r_id = tid, r_status = TProcessing, r_text = None, r_error = None\<rparr>"
  "storeFails stalledEnv n = None"
  by (simp_all add: stalledEnv_def sampleEnv_def)

lemma stalled_transcription:
  "transcribeMeeting stalledEnv mid url w =
     (Inl ''Transcription timed out'',
      w\<lparr>sleeps := sleeps w @ replicate 60 5000, requests := Suc (requests w),
        meetings := map (\<lambda>m. if m_id m = mid then m\<lparr>m_status := Failed\<rparr> else m) (meetings w)\<rparr>)"
proof -
  let ?resp = "\<lparr>r_id = ''job'', r_status = TProcessing, r_text = None, r_error = None\<rparr>"
  have p: "pollLoop stalledEnv ''job'' 0 None w =
           (Inr (Some ?resp), w\<lparr>sleeps := sleeps w @ replicate (maxAttempts - 0) 5000\<rparr>)"
    by (rule pollLoop_stalled) (simp_all add: stalledEnv_fields maxAttempts_def)
  show ?thesis
    by (simp add: transcribeMeeting_def transcribeBody_def getAssemblyAIKey_def p
          updateMeetings_def request_def maxAttempts_def stalledEnv_fields)
qed




section \<open>Starting a run\<close>


lemma updateMeetingStatus_withStatus:
  "storeFails env (requests w) = None \<Longrightarrow>
   updateMeetingStatus env mid s (withStatus mid s0 w) = updateMeetingStatus env mid s w"
  by (simp add: updateMeetingStatus_def updateMeetings_def request_def withStatus_def
        status_overwritten)

lemma filter_withStatus:
  "filter (\<lambda>m. m_id m = mid)
     (map (\<lambda>m. if m_id m = mid then m\<lparr>m_status := s0\<rparr> else m) ms) =
   map (\<lambda>m. m\<lparr>m_status := s0\<rparr>) (filter (\<lambda>m. m_id m = mid) ms)"
  by (induction ms) simp_all

lemma getMeeting_withStatus:
  "getMeeting env mid (withStatus mid s0 w) =
     (map_option (\<lambda>m. m\<lparr>m_status := s0\<rparr>) (fst (getMeeting env mid w)),
      withStatus mid s0 (snd (getMeeting env mid w)))"
  by (simp add: getMeeting_def request_def withStatus_def filter_withStatus
        split: option.splits list.splits)

lemma getMeeting_snd: "snd (getMeeting env mid w) = w\<lparr>requests := Suc (requests w)\<rparr>"
  using getMeeting_world [of env mid w] by (metis prod.collapse)

lemma newMeeting_ignores_status:
  assumes "storeReliable env"
  shows "handleNewMeeting env mid audioUrl (withStatus mid s0 w) = handleNewMeeting env mid audioUrl w"
proof -
  have ok: "storeFails env k = None" for k using assms by (simp add: storeReliable_def)
  show ?thesis
    by (simp add: handleNewMeeting_def updateMeetingStatus_withStatus ok)
qed

lemma updatedMeeting_ignores_status:
  assumes "storeReliable env"
  shows "handleUpdatedMeeting env mid newAudioUrl (withStatus mid s0 w) =
         handleUpdatedMeeting env mid newAudioUrl w"
proof -
  have ok: "storeFails env k = None" for k using assms by (simp add: storeReliable_def)
  let ?w1 = "w\<lparr>requests := Suc (requests w)\<rparr>"
  have w1: "withStatus mid s0 ?w1 = (withStatus mid s0 w)\<lparr>requests := Suc (requests w)\<rparr>"
    by (simp add: withStatus_def)
  have st: "updateMeetingStatus env mid s (withStatus mid s0 ?w1) = updateMeetingStatus env mid s ?w1" for s
    by (rule updateMeetingStatus_withStatus) (rule ok)
  show ?thesis
  proof (cases "fst (getMeeting env mid w)")
    case None
    then have a: "getMeeting env mid w = (None, ?w1)"
      using getMeeting_snd [of env mid w] by (metis prod.collapse)
    have b: "getMeeting env mid (withStatus mid s0 w) = (None, withStatus mid s0 ?w1)"
      using a by (simp add: getMeeting_withStatus)
    show ?thesis
      by (simp add: handleUpdatedMeeting_def reprocessBody_def a b st)
  next
    case (Some m)
    then have a: "getMeeting env mid w = (Some m, ?w1)"
      using getMeeting_snd [of env mid w] by (metis prod.collapse)
    have b: "getMeeting env mid (withStatus mid s0 w) = (Some (m\<lparr>m_status := s0\<rparr>), withStatus mid s0 ?w1)"
      using a by (simp add: getMeeting_withStatus)
    show ?thesis
      by (simp add: handleUpdatedMeeting_def reprocessBody_def a b st Let_def)
  qed
qed

text \<open>
  C1 (amended). Neither handleNewMeeting nor handleUpdatedMeeting looks at the status
  of the meeting, and there is no lock: with a store that answers, a run requested for a
  meeting whose status is processing (or any other) gives the same result and the same
  final world as the run requested with the status the meeting had before. No request is
  rejected on account of the status.
\<close>

theorem run_ignores_status:
  assumes "storeReliable env"
  shows "handleNewMeeting env mid audioUrl (withStatus mid s0 w) =
           handleNewMeeting env mid audioUrl w \<and>
         handleUpdatedMeeting env mid newAudioUrl (withStatus mid s0 w) =
           handleUpdatedMeeting env mid newAudioUrl w"
  using newMeeting_ignores_status [OF assms] updatedMeeting_ignores_status [OF assms] by blast


theorem run_ignores_status_witness:
  "storeReliable sampleEnv \<and> withStatus ''m1'' Processing readyWorld = busyWorld \<and>
   handleNewMeeting sampleEnv ''m1'' ''u'' busyWorld =
     handleNewMeeting sampleEnv ''m1'' ''u'' readyWorld \<and>
   handleUpdatedMeeting sampleEnv ''m1'' (Some ''u'') busyWorld =
     handleUpdatedMeeting sampleEnv ''m1'' (Some ''u'') readyWorld"
proof -
  have b: "withStatus ''m1'' Processing readyWorld = busyWorld"
    by (simp add: withStatus_def readyWorld_def busyWorld_def emptyWorld_def sampleMeeting_def)
  show ?thesis
    using run_ignores_status [OF sampleEnv_reliable, of "''m1''" "''u''" Processing readyWorld "Some ''u''"]
      sampleEnv_reliable b
    by simp
qed

text \<open>
  The claim as stated fails: a run requested while the status is processing is not
  rejected; it starts, creates rows and ends with the status ready.
\<close>

theorem run_from_processing_counterexample:
  "map m_status (meetings busyWorld) = [Processing] \<and>
   res_success (fst (handleNewMeeting sampleEnv ''m1'' ''u'' busyWorld)) \<and>
   map m_status (meetings (snd (handleNewMeeting sampleEnv ''m1'' ''u'' busyWorld))) = [Ready] \<and>
   map ai_description (action_items (snd (handleNewMeeting sampleEnv ''m1'' ''u'' busyWorld))) =
     [''send notes'']"
  by (simp add: run_defs busyWorld_def pollLoop.simps maxAttempts_def Let_def)


section \<open>Reprocessing replaces the derived rows\<close>



































lemma upsertTopicAndLink_embeddings:
  "meeting_embeddings (upsertTopicAndLink env mid topicName w) = meeting_embeddings w"
proof -
  have l: "meeting_embeddings (linkTopic env mid i x) = meeting_embeddings x" for i x
    by (simp add: linkTopic_def request_def Let_def split: option.splits)
  obtain found w1 where f: "findTopic env (trim (toLowerCase topicName)) w = (found, w1)"
    by (cases "findTopic env (trim (toLowerCase topicName)) w")
  have w1: "meeting_embeddings w1 = meeting_embeddings w"
    unfolding findTopic_world [OF f] by simp
  show ?thesis
    using w1
    by (cases found)
       (simp_all add: upsertTopicAndLink_def Let_def f l request_def split: option.splits)
qed

lemma upsert_all_embeddings:
  "meeting_embeddings (foldl (\<lambda>w' topicName. upsertTopicAndLink env mid topicName w') w names) =
   meeting_embeddings w"
  by (induction names arbitrary: w) (simp_all add: upsertTopicAndLink_embeddings)

lemma storeChunks_next_id: "next_id w \<le> next_id (storeChunks env mid chunks i w)"
  using storeChunks_evolves [of w env mid chunks i] by (simp add: evolves_def)













section \<open>A failed run of a new meeting\<close>









section \<open>Recovery of failed meetings\<close>


lemma afterFirstRun_eq:
  "afterFirstRun =
   \<lparr>meetings =
     [\<lparr>m_id = ''m1'', m_status = Ready, m_transcript = Some ''hello world'',
         m_summary = Some ''ok'', m_video_url = Some ''u''\<rparr>],
     action_items =
       [\<lparr>ai_id = 0, ai_meeting_id = ''m1'', ai_description = ''send notes'',
           ai_priority = Medium, ai_due_date = None, ai_status = Pending\<rparr>],
     decisions =
       [\<lparr>d_id = 1, d_meeting_id = ''m1'', d_decision_text = ''ship it'',
           d_context = None, d_tags = None\<rparr>],
     topics =
       [\<lparr>t_id = 2, t_name = ''budget'', t_meeting_count = Some 1,
           t_last_discussed = Some ''t''\<rparr>],
     meeting_topics = [\<lparr>mt_meeting_id = ''m1'', mt_topic_id = 2\<rparr>],
     meeting_embeddings =
       [\<lparr>e_id = 3, e_meeting_id = ''m1'', e_embedding = [1],
           e_content_chunk = ''hello world'', e_chunk_index = 0\<rparr>],
     next_id = 4, requests = 10, gen_calls = 3, embed_calls = 1, sleeps = []\<rparr>"
  by (simp add: afterFirstRun_def run_defs readyWorld_def pollLoop.simps maxAttempts_def Let_def)

lemma stalled_handleNewMeeting:
  "handleNewMeeting stalledEnv mid url w =
     (failure mid ''Transcription timed out'',
      w\<lparr>sleeps := sleeps w @ replicate 60 5000, requests := requests w + 3,
        meetings := map (\<lambda>m. if m_id m = mid then m\<lparr>m_status := Failed\<rparr> else m) (meetings w)\<rparr>)"
  by (simp add: handleNewMeeting_def processMeeting_def stalled_transcription
        updateMeetingStatus_def updateMeetings_def request_def stalledEnv_fields
        status_overwritten)

lemma afterStalledRun_eq:
  "afterStalledRun =
   \<lparr>meetings =
     [\<lparr>m_id = ''m1'', m_status = Failed, m_transcript = Some ''hello world'',
         m_summary = Some ''ok'', m_video_url = Some ''u''\<rparr>],
     action_items =
       [\<lparr>ai_id = 0, ai_meeting_id = ''m1'', ai_description = ''send notes'',
           ai_priority = Medium, ai_due_date = None, ai_status = Pending\<rparr>],
     decisions =
       [\<lparr>d_id = 1, d_meeting_id = ''m1'', d_decision_text = ''ship it'',
           d_context = None, d_tags = None\<rparr>],
     topics =
       [\<lparr>t_id = 2, t_name = ''budget'', t_meeting_count = Some 1,
           t_last_discussed = Some ''t''\<rparr>],
     meeting_topics = [\<lparr>mt_meeting_id = ''m1'', mt_topic_id = 2\<rparr>],
     meeting_embeddings =
       [\<lparr>e_id = 3, e_meeting_id = ''m1'', e_embedding = [1],
           e_content_chunk = ''hello world'', e_chunk_index = 0\<rparr>],
     next_id = 4, requests = 13, gen_calls = 3, embed_calls = 1,
     sleeps = replicate 60 5000\<rparr>"
  by (simp add: afterStalledRun_def stalled_handleNewMeeting afterFirstRun_eq)

lemma recovered_run:
  "handleNewMeeting sampleEnv ''m1'' ''u'' (afterStalledRun\<lparr>requests := 14\<rparr>) =
    (\<lparr>res_success = True, res_meetingId = ''m1'',
      res_transcript = Some ''hello world'',
      res_actionItems =
        [\<lparr>ai_id = 4, ai_meeting_id = ''m1'',
            ai_description = ''send notes'', ai_priority = Medium,
            ai_due_date = None, ai_status = Pending\<rparr>],
      res_decisions =
        [\<lparr>d_id = 5, d_meeting_id = ''m1'', d_decision_text = ''ship it'',
            d_context = None, d_tags = None\<rparr>],
      res_error = None\<rparr>,
     \<lparr>meetings =
     [\<lparr>m_id = ''m1'', m_status = Ready, m_transcript = Some ''hello world'',
         m_summary = Some ''ok'', m_video_url = Some ''u''\<rparr>],
     action_items =
       [\<lparr>ai_id = 0, ai_meeting_id = ''m1'', ai_description = ''send notes'',
           ai_priority = Medium, ai_due_date = None, ai_status = Pending\<rparr>,
        \<lparr>ai_id = 4, ai_meeting_id = ''m1'', ai_description = ''send notes'',
           ai_priority = Medium, ai_due_date = None, ai_status = Pending\<rparr>],
     decisions =
       [\<lparr>d_id = 1, d_meeting_id = ''m1'', d_decision_text = ''ship it'',
           d_context = None, d_tags = None\<rparr>,
        \<lparr>d_id = 5, d_meeting_id = ''m1'', d_decision_text = ''ship it'',
           d_context = None, d_tags = None\<rparr>],
     topics =
       [\<lparr>t_id = 2, t_name = ''budget'', t_meeting_count = Some 2,
           t_last_discussed = Some ''t''\<rparr>],
     meeting_topics = [\<lparr>mt_meeting_id = ''m1'', mt_topic_id = 2\<rparr>],
     meeting_embeddings =
       [\<lparr>e_id = 6, e_meeting_id = ''m1'', e_embedding = [1],
           e_content_chunk = ''hello world'', e_chunk_index = 0\<rparr>],
     next_id = 7, requests = 24, gen_calls = 6, embed_calls = 2,
     sleeps = replicate 60 5000\<rparr>)"
  by (simp add: afterStalledRun_eq run_defs pollLoop.simps maxAttempts_def Let_def)


lemma recovery_of_stale_meeting:
  "reprocessFailedMeetings sampleEnv afterStalledRun =
     ([fst (handleNewMeeting sampleEnv ''m1'' ''u'' (afterStalledRun\<lparr>requests := 14\<rparr>))],
      sleep retryDelay (snd (handleNewMeeting sampleEnv ''m1'' ''u'' (afterStalledRun\<lparr>requests := 14\<rparr>))))"
proof -
  have r: "request sampleEnv afterStalledRun = (None, afterStalledRun\<lparr>requests := 14\<rparr>)"
    by (simp add: request_def afterStalledRun_eq sampleEnv_def)
  have s: "selectFailed (afterStalledRun\<lparr>requests := 14\<rparr>) = [(''m1'', Some ''u'')]"
    by (simp add: selectFailed_def afterStalledRun_eq)
  show ?thesis
    by (simp add: reprocessFailedMeetings_def r s truthy_def split: prod.splits)
qed

text \<open>
  C4, the code at a failing input. A meeting is processed with success and then again
  with a provider that never completes the job, which leaves it failed with the rows of
  the first run. reprocessFailedMeetings selects it and, because it has an audio
  reference, calls handleNewMeeting, which does no cleanup: the action item and the
  decision of the first run stay beside those of the new run. (The delay after each
  retry, 2000 ms, is longer than the 1000 ms between the meetings of a batch.)
\<close>

theorem recoverFailed_keeps_stale_rows:
  "selectFailed afterStalledRun = [(''m1'', Some ''u'')] \<and>
   map ai_id (action_items afterStalledRun) = [0] \<and>
   map ai_id (res_actionItems (hd (fst (reprocessFailedMeetings sampleEnv afterStalledRun)))) = [4] \<and>
   map ai_id (action_items (snd (reprocessFailedMeetings sampleEnv afterStalledRun))) = [0, 4] \<and>
   map d_id (decisions (snd (reprocessFailedMeetings sampleEnv afterStalledRun))) = [1, 5] \<and>
   batchDelay < retryDelay"
proof -
  have a: "selectFailed afterStalledRun = [(''m1'', Some ''u'')]"
    "map ai_id (action_items afterStalledRun) = [0]"
    by (simp_all add: selectFailed_def afterStalledRun_eq)
  have b: "map ai_id (res_actionItems (hd (fst (reprocessFailedMeetings sampleEnv afterStalledRun)))) = [4]"
    "map ai_id (action_items (snd (reprocessFailedMeetings sampleEnv afterStalledRun))) = [0, 4]"
    "map d_id (decisions (snd (reprocessFailedMeetings sampleEnv afterStalledRun))) = [1, 5]"
    by (simp_all add: recovery_of_stale_meeting recovered_run sleep_def)
  have c: "batchDelay < retryDelay"
    by (simp add: batchDelay_def retryDelay_def)
  show ?thesis using a b c by simp
qed


section \<open>Chunking: count, non-empty chunks, re-joining\<close>


lemma is_ws_space: "is_ws (CHR '' '')"
  by (simp add: is_ws_def)

lemma splitFrom_not_Nil: "splitFrom cur rest \<noteq> []"
  by (induction cur rest rule: splitFrom.induct) auto

lemma splitFrom_ws_free:
  "\<forall>c\<in>set cur. \<not> is_ws c \<Longrightarrow> \<forall>w\<in>set (splitFrom cur rest). \<forall>c\<in>set w. \<not> is_ws c"
proof (induction cur rest rule: splitFrom.induct)
  case (1 cur)
  then show ?case by simp
next
  case (2 cur c cs)
  show ?case
  proof (cases "is_ws c")
    case True
    have "\<forall>w\<in>set (splitFrom [] (dropWhile is_ws cs)). \<forall>c\<in>set w. \<not> is_ws c"
      by (rule "2.IH"(1) [OF True]) simp
    then show ?thesis using True "2.prems" by simp
  next
    case False
    have "\<forall>w\<in>set (splitFrom (cur @ [c]) cs). \<forall>c\<in>set w. \<not> is_ws c"
      by (rule "2.IH"(2) [OF False]) (use False "2.prems" in auto)
    then show ?thesis using False by simp
  qed
qed

lemma splitFrom_inner_nonempty:
  "cur \<noteq> [] \<or> rest = [] \<or> \<not> is_ws (hd rest) \<Longrightarrow>
   \<forall>w\<in>set (butlast (splitFrom cur rest)). w \<noteq> []"
proof (induction cur rest rule: splitFrom.induct)
  case (1 cur)
  show ?case by simp
next
  case (2 cur c cs)
  show ?case
  proof (cases "is_ws c")
    case True
    have d: "dropWhile is_ws cs = [] \<or> \<not> is_ws (hd (dropWhile is_ws cs))"
      using hd_dropWhile [of is_ws cs] by blast
    have ih: "\<forall>w\<in>set (butlast (splitFrom [] (dropWhile is_ws cs))). w \<noteq> []"
      by (rule "2.IH"(1) [OF True disjI2, OF d])
    have cur: "cur \<noteq> []" using "2.prems" True by simp
    show ?thesis using True ih cur by (simp add: splitFrom_not_Nil)
  next
    case False
    have "\<forall>w\<in>set (butlast (splitFrom (cur @ [c]) cs)). w \<noteq> []"
      by (rule "2.IH"(2) [OF False]) simp
    then show ?thesis using False by simp
  qed
qed

lemma splitFrom_word: "\<forall>c\<in>set w. \<not> is_ws c \<Longrightarrow> splitFrom cur w = [cur @ w]"
  by (induction w arbitrary: cur) auto

lemma words_dropWhile:
  "filter (\<lambda>w. w \<noteq> []) (splitFrom [] (dropWhile is_ws b)) = filter (\<lambda>w. w \<noteq> []) (splitFrom [] b)"
  by (cases b) auto

lemma dropWhile_dropWhile_append:
  "dropWhile P (dropWhile P xs @ ys) = dropWhile P (xs @ ys)"
  by (induction xs) auto

lemma words_append_space:
  "filter (\<lambda>w. w \<noteq> []) (splitFrom cur (a @ CHR '' '' # b)) =
   filter (\<lambda>w. w \<noteq> []) (splitFrom cur a) @ filter (\<lambda>w. w \<noteq> []) (splitFrom [] b)"
proof (induction cur a rule: splitFrom.induct)
  case (1 cur)
  show ?case using words_dropWhile [of b] by (simp add: is_ws_space)
next
  case (2 cur c cs)
  show ?case
  proof (cases "is_ws c")
    case True
    have "filter (\<lambda>w. w \<noteq> []) (splitFrom [] (dropWhile is_ws (cs @ CHR '' '' # b))) =
          filter (\<lambda>w. w \<noteq> []) (splitFrom [] (dropWhile is_ws cs @ CHR '' '' # b))"
      using words_dropWhile [of "dropWhile is_ws cs @ CHR '' '' # b"]
      by (simp only: dropWhile_dropWhile_append)
    with 2 True show ?thesis by simp
  next
    case False
    with 2 show ?thesis by simp
  qed
qed

lemma wordsOf_joinSp: "wordsOf (joinSp xs) = concat (map wordsOf xs)"
  by (induction xs rule: joinSp.induct)
     (simp_all add: wordsOf_def splitWs_def words_append_space)

lemma wordsOf_word: "\<forall>c\<in>set w. \<not> is_ws c \<Longrightarrow> wordsOf w = filter (\<lambda>w. w \<noteq> []) [w]"
  by (simp add: wordsOf_def splitWs_def splitFrom_word)

lemma wordsOf_joinSp_words:
  "\<forall>w\<in>set xs. \<forall>c\<in>set w. \<not> is_ws c \<Longrightarrow> wordsOf (joinSp xs) = filter (\<lambda>w. w \<noteq> []) xs"
  by (induction xs) (simp_all add: wordsOf_joinSp wordsOf_word)

lemma trim_empty: "(trim s = []) = (\<forall>c\<in>set s. is_ws c)"
proof (cases "dropWhile is_ws s")
  case Nil
  then have "\<forall>c\<in>set s. is_ws c" by (simp add: dropWhile_eq_Nil_conv)
  moreover have "trim s = []" unfolding trim_def Nil by simp
  ultimately show ?thesis by simp
next
  case (Cons a list)
  then have a: "\<not> is_ws a" by (metis hd_dropWhile list.sel(1) list.distinct(1))
  have "a \<in> set s" using Cons by (metis list.set_intros(1) set_dropWhileD)
  with a have "\<not> (\<forall>c\<in>set s. is_ws c)" by blast
  moreover have "trim s \<noteq> []"
    using a Cons by (auto simp: trim_def dropWhile_eq_Nil_conv)
  ultimately show ?thesis by simp
qed

lemma joinSp_all_ws:
  "(\<forall>c\<in>set (joinSp xs). is_ws c) = (\<forall>x\<in>set xs. \<forall>c\<in>set x. is_ws c)"
  by (induction xs rule: joinSp.induct) (auto simp: is_ws_space)

lemma blank_chunk:
  assumes "\<forall>w\<in>set xs. \<forall>c\<in>set w. \<not> is_ws c"
  shows "(trim (joinSp xs) = []) = (filter (\<lambda>w. w \<noteq> []) xs = [])"
proof -
  have "(\<forall>x\<in>set xs. \<forall>c\<in>set x. is_ws c) = (\<forall>x\<in>set xs. x = [])"
    using assms by (metis all_not_in_conv list.set_intros(1) neq_Nil_conv set_empty)
  then show ?thesis
    by (simp add: trim_empty joinSp_all_ws filter_empty_conv)
qed



lemma ceil_small: "0 < W \<Longrightarrow> k \<le> W \<Longrightarrow> (k + W - 1) div W = (if k = 0 then 0 else (1::nat))"
proof (cases "k = 0")
  case True
  assume "0 < W"
  with True show ?thesis by simp
next
  case False
  assume w: "0 < W" "k \<le> W"
  with False have "W \<le> k + W - 1" "k + W - 1 < 2 * W" by arith+
  then have "(k + W - 1) div W = 1"
    by (metis (no_types, lifting) div_nat_eqI mult.commute mult_1 mult_2 mult_Suc Suc_1 One_nat_def nat_mult_1_right)
  with False show ?thesis by simp
qed

lemma ceil_step: "0 < W \<Longrightarrow> (W + k + W - 1) div W = Suc ((k + W - 1) div W)" for W :: nat
proof -
  assume w: "0 < W"
  obtain m where m: "m = k + W - 1" by simp
  with w have "W + k + W - 1 = m + W" by arith
  moreover have "(m + W) div W = Suc (m div W)" using w by simp
  ultimately show ?thesis using m by simp
qed

lemma chunkLoop_spec:
  assumes W: "0 < W" and wf: "\<forall>w\<in>set words. \<forall>c\<in>set w. \<not> is_ws c"
  shows "\<exists>r. chunkLoop words W i acc = Some (acc @ r) \<and> (\<forall>c\<in>set r. trim c \<noteq> []) \<and>
      concat (map wordsOf r) = filter (\<lambda>w. w \<noteq> []) (drop i words) \<and>
      ((\<forall>w\<in>set (butlast (drop i words)). w \<noteq> []) \<longrightarrow>
         length r = (length (filter (\<lambda>w. w \<noteq> []) (drop i words)) + W - 1) div W)"
  using assms
proof (induction words W i acc rule: chunkLoop.induct)
  case (1 words W i chunks)
  note W = \<open>0 < W\<close> and wf = \<open>\<forall>w\<in>set words. \<forall>c\<in>set w. \<not> is_ws c\<close>
  show ?case
  proof (cases "i < length words")
    case False
    then have "chunkLoop words W i chunks = Some chunks"
      by (subst chunkLoop.simps) simp
    with False W show ?thesis by simp
  next
    case True
    define rest where "rest = drop i words"
    define slice where "slice = take W rest"
    define chunk where "chunk = joinSp slice"
    define acc' where "acc' = (if length (trim chunk) > 0 then chunks @ [chunk] else chunks)"
    have later: "drop (i + W) words = drop W rest"
      by (simp add: rest_def add.commute)
    have step: "chunkLoop words W i chunks = chunkLoop words W (i + W) acc'"
      using True W
      by (subst chunkLoop.simps) (simp add: acc'_def chunk_def slice_def rest_def Let_def)
    have "\<exists>r. chunkLoop words W (i + W) acc' = Some (acc' @ r) \<and> (\<forall>c\<in>set r. trim c \<noteq> []) \<and>
      concat (map wordsOf r) = filter (\<lambda>w. w \<noteq> []) (drop (i + W) words) \<and>
      ((\<forall>w\<in>set (butlast (drop (i + W) words)). w \<noteq> []) \<longrightarrow>
         length r = (length (filter (\<lambda>w. w \<noteq> []) (drop (i + W) words)) + W - 1) div W)"
      unfolding acc'_def chunk_def slice_def rest_def
      by (rule "1.IH" [OF True _ refl W wf]) (use W in simp)
    then obtain r' where
      r1: "chunkLoop words W (i + W) acc' = Some (acc' @ r')" and
      r2: "\<forall>c\<in>set r'. trim c \<noteq> []" and
      r3: "concat (map wordsOf r') = filter (\<lambda>w. w \<noteq> []) (drop W rest)" and
      r4: "(\<forall>w\<in>set (butlast (drop W rest)). w \<noteq> []) \<Longrightarrow>
         length r' = (length (filter (\<lambda>w. w \<noteq> []) (drop W rest)) + W - 1) div W"
      unfolding later by blast
    have slice_wf: "\<forall>w\<in>set slice. \<forall>c\<in>set w. \<not> is_ws c"
      using wf unfolding slice_def rest_def
      by (meson in_set_dropD in_set_takeD)
    have words_chunk: "wordsOf chunk = filter (\<lambda>w. w \<noteq> []) slice"
      unfolding chunk_def by (rule wordsOf_joinSp_words [OF slice_wf])
    have blank: "(trim chunk = []) = (filter (\<lambda>w. w \<noteq> []) slice = [])"
      unfolding chunk_def by (rule blank_chunk [OF slice_wf])
    have split: "filter (\<lambda>w. w \<noteq> []) rest =
        filter (\<lambda>w. w \<noteq> []) slice @ filter (\<lambda>w. w \<noteq> []) (drop W rest)"
      unfolding slice_def by (metis append_take_drop_id filter_append)
    define r where "r = (if trim chunk \<noteq> [] then [chunk] else []) @ r'"
    have res: "chunkLoop words W i chunks = Some (chunks @ r)"
      using step r1 by (simp add: r_def acc'_def)
    have nonblank: "\<forall>c\<in>set r. trim c \<noteq> []"
      using r2 by (auto simp: r_def)
    have rejoin: "concat (map wordsOf r) = filter (\<lambda>w. w \<noteq> []) rest"
      using r3 words_chunk blank split by (simp add: r_def)
    have count: "length r = (length (filter (\<lambda>w. w \<noteq> []) rest) + W - 1) div W"
      if inner: "\<forall>w\<in>set (butlast rest). w \<noteq> []"
    proof (cases "length rest \<le> W")
      case True
      then have sl: "slice = rest" and dr: "drop W rest = []"
        by (simp_all add: slice_def)
      have r0: "length r' = 0" using r4 dr W by simp
      have "length (filter (\<lambda>w. w \<noteq> []) rest) \<le> W"
        using True by (meson length_filter_le le_trans)
      then have c: "(length (filter (\<lambda>w. w \<noteq> []) rest) + W - 1) div W =
          (if filter (\<lambda>w. w \<noteq> []) rest = [] then 0 else 1)"
        using ceil_small [OF W] by simp
      have "length r = (if filter (\<lambda>w. w \<noteq> []) rest = [] then 0 else 1)"
        using r0 blank sl by (simp add: r_def)
      with c show ?thesis by simp
    next
      case False
      then have "take W rest = take W (butlast rest)"
        by (simp add: take_butlast)
      then have sl: "\<forall>w\<in>set slice. w \<noteq> []"
        using inner unfolding slice_def by (metis in_set_takeD)
      then have fs: "filter (\<lambda>w. w \<noteq> []) slice = slice"
        by (simp add: filter_id_conv)
      have ls: "length slice = W" using False by (simp add: slice_def)
      have ne: "trim chunk \<noteq> []" using blank fs ls W by auto
      have "\<forall>w\<in>set (butlast (drop W rest)). w \<noteq> []"
        using inner by (metis butlast_drop in_set_dropD)
      then have "length r' = (length (filter (\<lambda>w. w \<noteq> []) (drop W rest)) + W - 1) div W"
        by (rule r4)
      then have "length r = Suc ((length (filter (\<lambda>w. w \<noteq> []) (drop W rest)) + W - 1) div W)"
        using ne by (simp add: r_def)
      also have "\<dots> = (W + length (filter (\<lambda>w. w \<noteq> []) (drop W rest)) + W - 1) div W"
        by (rule ceil_step [OF W, symmetric])
      finally show ?thesis by (simp add: split fs ls)
    qed
    show ?thesis
      using res nonblank rejoin count unfolding rest_def by blast
  qed
qed


text \<open>
  C5 (amended). For a transcript that does not begin with white space, of N > 0 words,
  and a chunk size W > 0, splitIntoChunks returns exactly ceil(N / W) chunks, none of
  them blank, and the chunks joined with single spaces have the words of the transcript,
  in order; so 1000 words and W = 500 give 2 chunks. (A transcript that begins with
  white space has an empty first piece, which counts as a word of the first chunk.)
\<close>

theorem splitIntoChunks_count:
  assumes "0 < W" and "0 < length (wordsOf text)" and "\<not> is_ws (hd text)"
  shows "\<exists>chunks. splitIntoChunks text W = Some chunks \<and>
           length chunks = (length (wordsOf text) + W - 1) div W \<and>
           (\<forall>c\<in>set chunks. trim c \<noteq> []) \<and>
           wordsOf (joinSp chunks) = wordsOf text \<and>
           (length (wordsOf text) = 1000 \<and> W = 500 \<longrightarrow> length chunks = 2)"
proof -
  have wf: "\<forall>w\<in>set (splitWs text). \<forall>c\<in>set w. \<not> is_ws c"
    unfolding splitWs_def by (rule splitFrom_ws_free) simp
  have inner: "\<forall>w\<in>set (butlast (splitWs text)). w \<noteq> []"
    unfolding splitWs_def by (rule splitFrom_inner_nonempty) (use assms(3) in simp)
  obtain r where r: "chunkLoop (splitWs text) W 0 [] = Some ([] @ r)"
      "\<forall>c\<in>set r. trim c \<noteq> []"
      "concat (map wordsOf r) = filter (\<lambda>w. w \<noteq> []) (drop 0 (splitWs text))"
      "(\<forall>w\<in>set (butlast (drop 0 (splitWs text))). w \<noteq> []) \<longrightarrow>
         length r = (length (filter (\<lambda>w. w \<noteq> []) (drop 0 (splitWs text))) + W - 1) div W"
    using chunkLoop_spec [OF assms(1) wf, of 0 "[]"] by blast
  have "splitIntoChunks text W = Some r" using r(1) by (simp add: splitIntoChunks_def)
  moreover have len: "length r = (length (wordsOf text) + W - 1) div W"
    using r(4) inner by (simp add: wordsOf_def)
  moreover have "wordsOf (joinSp r) = wordsOf text"
    using r(3) unfolding wordsOf_joinSp by (simp add: wordsOf_def)
  moreover have "length (wordsOf text) = 1000 \<and> W = 500 \<longrightarrow> length r = 2"
    using len by auto
  ultimately show ?thesis using r(2) by blast
qed

theorem splitIntoChunks_count_witness:
  "0 < (2::nat) \<and> 0 < length (wordsOf ''a b c'') \<and> \<not> is_ws (hd ''a b c'') \<and>
   splitIntoChunks ''a b c'' 2 = Some [''a b'', ''c''] \<and>
   length [''a b'', ''c''] = (length (wordsOf ''a b c'') + 2 - 1) div 2 \<and>
   wordsOf (joinSp [''a b'', ''c'']) = wordsOf ''a b c''"
proof -
  have h: "0 < (2::nat)" "0 < length (wordsOf ''a b c'')" "\<not> is_ws (hd ''a b c'')"
    by (simp_all add: wordsOf_def splitWs_def is_ws_def)
  have e: "splitIntoChunks ''a b c'' 2 = Some [''a b'', ''c'']"
    by (simp add: splitIntoChunks_def splitWs_def is_ws_def chunkLoop.simps trim_def)
  show ?thesis using splitIntoChunks_count [OF h] h e by simp
qed

text \<open>
  The claim as stated fails for a transcript that begins with white space: two words
  and W = 2 give two chunks, not one.
\<close>

theorem splitIntoChunks_count_counterexample:
  "length (wordsOf '' a b'') = 2 \<and> splitIntoChunks '' a b'' 2 = Some ['' a'', ''b''] \<and>
   length ['' a'', ''b''] \<noteq> (2 + 2 - 1) div 2"
  by (simp add: wordsOf_def splitIntoChunks_def splitWs_def is_ws_def chunkLoop.simps trim_def)

section \<open>Search: ranking, one result per meeting\<close>







lemma dedupLoop_subset:
  "set (dedupLoop topK xs seen out) \<subseteq> set out \<union> set xs"
proof (induction xs arbitrary: seen out)
  case Nil
  then show ?case by simp
next
  case (Cons r rest)
  show ?case
    using Cons.IH [of seen out] Cons.IH [of "insert (sr_meetingId r) seen" "out @ [r]"]
    by (auto simp: Let_def)
qed












lemma cosine_unit: "cosineSimilarity [1] [1] = 1" "cosineSimilarity_ai [1] [1] = 1"
  by (simp_all add: cosineSimilarity_def cosineSimilarity_ai_def cosineSums_def)

lemma search_two_chunks:
  "searchMeetings sampleEnv ''q'' topK twoChunkWorld =
   (Inr (dedupLoop topK
      [\<lparr>sr_meetingId = ''m1'', sr_snippet = ''a'', sr_relevance = 1\<rparr>,
       \<lparr>sr_meetingId = ''m2'', sr_snippet = ''b'', sr_relevance = 1\<rparr>] {} []),
    twoChunkWorld\<lparr>requests := 1, embed_calls := 1\<rparr>)"
  by (simp add: searchMeetings_def sampleEnv_def twoChunkWorld_def emptyWorld_def trim_def
        is_ws_def getGeminiKey_def embed_def request_def scoredResults_def sortDescending_def
        truncateSnippet_def cosine_unit sampleMeeting_def)



text \<open>With topK = 0 the loop of the Q and A service still returns one result.\<close>

lemma search_topK_zero:
  "searchMeetings sampleEnv ''q'' 0 twoChunkWorld =
     (Inr [\<lparr>sr_meetingId = ''m1'', sr_snippet = ''a'', sr_relevance = 1\<rparr>],
      twoChunkWorld\<lparr>requests := 1, embed_calls := 1\<rparr>)"
  by (simp add: search_two_chunks)



section \<open>Answering over an empty corpus\<close>


lemma findRelevantChunks_gen_calls:
  "gen_calls (snd (findRelevantChunks env query topK w)) = gen_calls w"
  by (simp add: findRelevantChunks_def embed_def request_def
        split: sum.splits option.splits)

lemma findRelevantChunks_empty_corpus:
  assumes "embedContent env (trim query) = Inr q" and "storeFails env (requests w) = None"
    and "meeting_embeddings w = []"
  shows "findRelevantChunks env query topK w =
           (Inr [], w\<lparr>embed_calls := Suc (embed_calls w), requests := Suc (requests w)\<rparr>)"
  using assms by (simp add: findRelevantChunks_def embed_def request_def)

text \<open>
  C7. For a question that is not blank and a configured key: when the retrieval returns
  zero chunks, answerMeetingQuestion returns the fixed no-content answer with no sources
  and the generation model has not been called; and an empty table of embeddings (with
  the query embedded and the table read) is such a case.
\<close>

theorem answer_empty_corpus:
  assumes "question \<noteq> []" and "trim question \<noteq> []" and "getGeminiKey env = Inr key"
  shows "(findRelevantChunks env question topK w = (Inr [], w1) \<longrightarrow>
            answerMeetingQuestion env question topK w =
              (Inr \<lparr>answer = noContentAnswer, sources = []\<rparr>, w1) \<and>
            gen_calls (snd (answerMeetingQuestion env question topK w)) = gen_calls w) \<and>
         (meeting_embeddings w = [] \<and> embedContent env (trim question) = Inr q \<and>
          storeFails env (requests w) = None \<longrightarrow>
            fst (answerMeetingQuestion env question topK w) =
              Inr \<lparr>answer = noContentAnswer, sources = []\<rparr> \<and>
            gen_calls (snd (answerMeetingQuestion env question topK w)) = gen_calls w)"
proof -
  have a: "answerMeetingQuestion env question topK w =
              (Inr \<lparr>answer = noContentAnswer, sources = []\<rparr>, w1) \<and>
            gen_calls (snd (answerMeetingQuestion env question topK w)) = gen_calls w"
    if f: "findRelevantChunks env question topK w = (Inr [], w1)" for w1
  proof -
    have "gen_calls w1 = gen_calls w"
      using findRelevantChunks_gen_calls [of env question topK w] f by simp
    then show ?thesis using assms f by (simp add: answerMeetingQuestion_def)
  qed
  have b: "fst (answerMeetingQuestion env question topK w) =
              Inr \<lparr>answer = noContentAnswer, sources = []\<rparr> \<and>
            gen_calls (snd (answerMeetingQuestion env question topK w)) = gen_calls w"
    if "meeting_embeddings w = []" "embedContent env (trim question) = Inr q"
       "storeFails env (requests w) = None"
    using a [OF findRelevantChunks_empty_corpus [OF that(2,3,1)]] by simp
  show ?thesis using a b by blast
qed

theorem answer_empty_corpus_witness:
  "''q'' \<noteq> [] \<and> trim ''q'' \<noteq> [] \<and> getGeminiKey sampleEnv = Inr ''k2'' \<and>
   meeting_embeddings emptyWorld = [] \<and> embedContent sampleEnv (trim ''q'') = Inr [1] \<and>
   storeFails sampleEnv (requests emptyWorld) = None \<and>
   findRelevantChunks sampleEnv ''q'' 5 emptyWorld =
     (Inr [], emptyWorld\<lparr>embed_calls := 1, requests := 1\<rparr>) \<and>
   answerMeetingQuestion sampleEnv ''q'' 5 emptyWorld =
     (Inr \<lparr>answer = noContentAnswer, sources = []\<rparr>, emptyWorld\<lparr>embed_calls := 1, requests := 1\<rparr>) \<and>
   gen_calls (snd (answerMeetingQuestion sampleEnv ''q'' 5 emptyWorld)) = 0"
proof -
  have h: "''q'' \<noteq> []" "trim ''q'' \<noteq> []" "getGeminiKey sampleEnv = Inr ''k2''"
    by (simp_all add: trim_def is_ws_def getGeminiKey_def sampleEnv_def)
  have c: "meeting_embeddings emptyWorld = []" "embedContent sampleEnv (trim ''q'') = Inr [1]"
    "storeFails sampleEnv (requests emptyWorld) = None" "gen_calls emptyWorld = 0"
    by (simp_all add: emptyWorld_def sampleEnv_def)
  have f: "findRelevantChunks sampleEnv ''q'' 5 emptyWorld =
     (Inr [], emptyWorld\<lparr>embed_calls := 1, requests := 1\<rparr>)"
    using findRelevantChunks_empty_corpus [OF c(2,3,1), of 5] by (simp add: emptyWorld_def)
  show ?thesis
    using answer_empty_corpus [OF h, of 5 emptyWorld "emptyWorld\<lparr>embed_calls := 1, requests := 1\<rparr>" "[1]"]
      h c f
    by simp
qed


section \<open>Topics: upsert and counters\<close>









lemma normalized_budget: "trim (toLowerCase '' Budget'') = ''budget''"
  by (simp add: trim_def toLowerCase_def lowerChar_def is_ws_def)



section \<open>Cosine similarity\<close>










section \<open>The orchestrator's answer never fails\<close>

text \<open>
  C10. getAnswerForQuestion returns an answer for every question and topK. A question
  that is empty or blank gets the fixed answer with no sources, and the world is
  untouched (nothing was called). Otherwise the result of the Q and A service is passed
  on, and each of its failures (a missing key, a failed embedding of the question, a
  failed read of the store, a failed generation) comes back as an answer around the
  message, with no sources.
\<close>

theorem getAnswerForQuestion_total:
  "(question = [] \<or> trim question = [] \<longrightarrow>
      getAnswerForQuestion env question topK w =
        (\<lparr>answer = ''Please provide a valid question.'', sources = []\<rparr>, w)) \<and>
   (question \<noteq> [] \<and> trim question \<noteq> [] \<longrightarrow>
      (\<forall>e w1. answerMeetingQuestion env question topK w = (Inl e, w1) \<longrightarrow>
          getAnswerForQuestion env question topK w =
            (\<lparr>answer = ''I encountered an error while trying to answer your question: '' @
                        e @ ''. Please try again.'', sources = []\<rparr>, w1)) \<and>
      (\<forall>r w1. answerMeetingQuestion env question topK w = (Inr r, w1) \<longrightarrow>
          getAnswerForQuestion env question topK w = (r, w1)) \<and>
      (\<forall>e. getGeminiKey env = Inl e \<longrightarrow>
          fst (answerMeetingQuestion env question topK w) = Inl e) \<and>
      (\<forall>e key. getGeminiKey env = Inr key \<and> embedContent env (trim question) = Inl e \<longrightarrow>
          fst (answerMeetingQuestion env question topK w) = Inl (''Q&A failed: '' @ e)) \<and>
      (\<forall>e key q. getGeminiKey env = Inr key \<and> embedContent env (trim question) = Inr q \<and>
            storeFails env (requests w) = Some e \<longrightarrow>
          fst (answerMeetingQuestion env question topK w) =
            Inl (''Q&A failed: '' @ ''Failed to fetch embeddings: '' @ e)) \<and>
      (\<forall>e key chunks w1. getGeminiKey env = Inr key \<and>
            findRelevantChunks env question topK w = (Inr chunks, w1) \<and> chunks \<noteq> [] \<and>
            generateContent env (AnswerPrompt (map rc_content chunks) question) = Inl e \<longrightarrow>
          fst (answerMeetingQuestion env question topK w) = Inl (''Q&A failed: '' @ e)))"
  by (auto simp: getAnswerForQuestion_def answerMeetingQuestion_def findRelevantChunks_def
        embed_def request_def generate_def)


theorem getAnswerForQuestion_total_witness:
  "trim ''  '' = [] \<and>
   getAnswerForQuestion sampleEnv ''  '' 5 emptyWorld =
     (\<lparr>answer = ''Please provide a valid question.'', sources = []\<rparr>, emptyWorld) \<and>
   ''q'' \<noteq> [] \<and> trim ''q'' \<noteq> [] \<and>
   answerMeetingQuestion failingEnv ''q'' 5 emptyWorld =
     (Inl ''Q&A failed: boom'', emptyWorld\<lparr>embed_calls := 1\<rparr>) \<and>
   getAnswerForQuestion failingEnv ''q'' 5 emptyWorld =
     (\<lparr>answer = ''I encountered an error while trying to answer your question: '' @
                ''Q&A failed: boom'' @ ''. Please try again.'', sources = []\<rparr>,
      emptyWorld\<lparr>embed_calls := 1\<rparr>)"
proof -
  have b: "trim ''  '' = []" "''q'' \<noteq> []" "trim ''q'' \<noteq> []"
    by (simp_all add: trim_def is_ws_def)
  have f: "answerMeetingQuestion failingEnv ''q'' 5 emptyWorld =
     (Inl ''Q&A failed: boom'', emptyWorld\<lparr>embed_calls := 1\<rparr>)"
    by (simp add: answerMeetingQuestion_def findRelevantChunks_def embed_def getGeminiKey_def
          failingEnv_def sampleEnv_def emptyWorld_def trim_def is_ws_def)
  show ?thesis
    using getAnswerForQuestion_total [of "''  ''" sampleEnv 5 emptyWorld]
      getAnswerForQuestion_total [of "''q''" failingEnv 5 emptyWorld] b f
    by simp
qed
end
